theory Spec2Isabelle
  imports Complex_Main
begin

section \<open>The tone generator widget of \<open>script.js\<close>\<close>

text \<open>
  The page script keeps its whole state in variables of one closure: the audio context, the
  node references and running flags of the two sound sources, and the stored frequency.
  Everything it does to the host audio engine is a call on a node of that engine. The
  embedding keeps the variables in one record, records every host call in the order the
  script makes it, and turns the three callbacks the script hands to the host into a
  datatype, so that the host can run them later.

  JavaScript numbers are doubles. A finite double is modelled as the real number it denotes,
  and the arithmetic of \<open>hzToAngle\<close> and \<open>angleToHz\<close> rounds the result of every
  operation to the nearest double. \<open>Math.round\<close>, \<open>Math.max\<close> and \<open>Math.min\<close> are
  exact on finite doubles, so everything proved here about \<open>setHz\<close> for all reals holds
  for every finite double. The sums \<open>now + 0.06\<close> of the schedules are taken exactly. The
  clock of the context and the value of a gain are the host's: the script only reads them.
\<close>

subsection \<open>Numbers\<close>

text \<open>
  \<open>Math.round(x)\<close> is the integer closest to \<open>x\<close>, and of two equally close integers the
  one nearer to plus infinity: the floor of \<open>x + 1/2\<close>.
\<close>

definition Math_round :: "real \<Rightarrow> int" where
  "Math_round x = \<lfloor>x + 1 / 2\<rfloor>"

definition MIN_HZ :: int where
  "MIN_HZ = 20"

definition MAX_HZ :: int where
  "MAX_HZ = 120"

text \<open>
  The result of an arithmetic operation on doubles is the exact result rounded to the
  nearest double: to the nearest number with 53 significant bits, and of two equally near
  ones to the one whose last bit is zero. \<open>round_even\<close> rounds to the nearest integer in
  that way, and \<open>double\<close> applies it at the scale of the last of the 53 bits. This is the
  rounding of IEEE 754 binary64 for every result of a magnitude from \<open>2 ^ - 1022\<close> up to
  the largest double; underflow, overflow and \<open>NaN\<close> are not modelled. The operations of
  \<open>hzToAngle\<close> and \<open>angleToHz\<close> on the frequencies and angles of the knob give zero or
  a result far inside that range.
\<close>

definition round_even :: "real \<Rightarrow> int" where
  "round_even y =
     (let f = \<lfloor>y\<rfloor>
      in if y - of_int f < 1 / 2 then f
         else if 1 / 2 < y - of_int f then f + 1
         else if even f then f else f + 1)"

definition double :: "real \<Rightarrow> real" where
  "double x =
     (if x = 0 then 0
      else let u = 2 powr (of_int \<lfloor>log 2 \<bar>x\<bar>\<rfloor> - 52)
           in of_int (round_even (x / u)) * u)"

text \<open>
  The two functions of the knob, with the rounding of the arithmetic as a parameter: \<open>rnd\<close>
  is applied to the result of every subtraction, division, multiplication and addition.
  The constants \<open>135\<close> and \<open>270\<close> are doubles, and \<open>Math.max\<close> and \<open>Math.min\<close> return
  one of their arguments.
\<close>

definition hzToAngle_fl :: "(real \<Rightarrow> real) \<Rightarrow> real \<Rightarrow> real" where
  "hzToAngle_fl rnd hz =
     (let t = rnd (rnd (hz - of_int MIN_HZ) / rnd (of_int MAX_HZ - of_int MIN_HZ))
      in rnd (- 135 + rnd (t * 270)))"

definition angleToHz_fl :: "(real \<Rightarrow> real) \<Rightarrow> real \<Rightarrow> int" where
  "angleToHz_fl rnd angle =
     (let a = max (- 135) (min 135 angle);
          t = rnd (rnd (a + 135) / 270);
          hz = rnd (of_int MIN_HZ + rnd (t * rnd (of_int MAX_HZ - of_int MIN_HZ)))
      in Math_round hz)"

text \<open>
  The script computes in doubles: the knob angle of a frequency, from \<open>-135\<close> to \<open>+135\<close>
  degrees, and the frequency of an angle.
\<close>

definition hzToAngle :: "real \<Rightarrow> real" where
  "hzToAngle hz = hzToAngle_fl double hz"

definition angleToHz :: "real \<Rightarrow> int" where
  "angleToHz angle = angleToHz_fl double angle"

subsection \<open>The host audio engine\<close>

text \<open>
  Nodes of the engine are numbered in the order the script creates them. An audio parameter
  is named by its node; a connection leads to another node or to the context's destination.
\<close>

type_synonym node = nat

datatype param = Frequency node | Gain node | Q node

datatype target = Node node | Destination

text \<open>
  The script hands three functions to the host: the \<open>onDone\<close> of the generator's soft stop
  (in \<open>stopAllAudio\<close> and in \<open>stopGenerator\<close>), the \<open>onDone\<close> of the test tone's soft stop
  (in \<open>stopAllAudio\<close>), and the \<open>onended\<close> handler of \<open>playTestTone\<close>. They assign to the
  script's variables, not to the nodes they were created for.
\<close>

datatype handler = ReleaseGenerator | ReleaseTestTone | TestToneEnded

datatype host_call =
    NewAudioContext
  | CreateOscillator node
  | CreateGain node
  | CreateBiquadFilter node
  | SetType node string
  | SetValue param real
  | CancelScheduledValues param real
  | SetValueAtTime param real real
  | LinearRampToValueAtTime param real real
  | SetTargetAtTime param real real real
  | Connect node target
  | Start node
  | Stop node real
  | SetOnEnded node handler

text \<open>
  \<open>softStopNode\<close> wraps four host calls in \<open>try\<close>; a fault names the call that throws.
  The only other statement of the script that can throw is the construction of the context
  when the window has no audio constructor.
\<close>

datatype fault = NoFault | AtCancel | AtSetValue | AtRamp | AtStop

datatype error = TypeError

datatype ctx = AudioContext

subsection \<open>The state of the page\<close>

record session =
  audioContext :: "ctx option"
  genOsc :: "node option"
  genGain :: "node option"
  genLPF :: "node option"
  genRunning :: bool
  testOsc :: "node option"
  testGain :: "node option"
  testRunning :: bool
  currentHz :: int
  active_audio :: bool
  readout :: int
  rotation :: real
  capable :: bool
  currentTime :: real
  allocated :: nat
  calls :: "host_call list"
  ended :: "node list"
  reading :: "node \<Rightarrow> real \<Rightarrow> real"

text \<open>
  \<open>active_audio\<close> is the class \<open>active-audio\<close> of the document body, \<open>readout\<close> the number
  shown in the readout and in the knob's ARIA attributes, \<open>rotation\<close> the angle of the knob
  indicator. The last six fields belong to the host: whether the window has an audio
  constructor, the context's clock, the number of nodes created, the calls made so far, the
  oscillators whose end has been notified, and the value the engine reports for the gain
  of a gain node at a time (\<open>gain.gain.value\<close>).
\<close>

datatype outcome = Returns session | Throws error session

definition perform :: "host_call list \<Rightarrow> session \<Rightarrow> session" where
  "perform cs s = s\<lparr>calls := calls s @ cs\<rparr>"

fun run_handler :: "handler \<Rightarrow> session \<Rightarrow> session" where
  "run_handler ReleaseGenerator s = s\<lparr>genOsc := None, genGain := None, genLPF := None\<rparr>"
| "run_handler ReleaseTestTone s = s\<lparr>testOsc := None, testGain := None\<rparr>"
| "run_handler TestToneEnded s =
     s\<lparr>testRunning := False, testOsc := None, testGain := None, active_audio := False\<rparr>"

subsection \<open>Shared audio engine\<close>

definition ensureContext :: "session \<Rightarrow> outcome" where
  "ensureContext s =
     (case audioContext s of
        Some ctx \<Rightarrow> Returns s
      | None \<Rightarrow>
          if capable s
          then Returns (perform [NewAudioContext] (s\<lparr>audioContext := Some AudioContext\<rparr>))
          else Throws TypeError s)"

text \<open>The number of host calls of the \<open>try\<close> block that return before the throw.\<close>

fun completed :: "fault \<Rightarrow> nat" where
  "completed AtCancel = 0"
| "completed AtSetValue = 1"
| "completed AtRamp = 2"
| "completed AtStop = 3"
| "completed NoFault = 4"

definition softStopNode :: "fault \<Rightarrow> node \<Rightarrow> node \<Rightarrow> handler \<Rightarrow> session \<Rightarrow> session" where
  "softStopNode f osc gain onDone s =
     (let now = currentTime s;
          block = [CancelScheduledValues (Gain gain) now,
                   SetValueAtTime (Gain gain) (reading s gain now) now,
                   LinearRampToValueAtTime (Gain gain) 0 (now + 0.06),
                   Stop osc (now + 0.07)]
      in if f = NoFault then perform (block @ [SetOnEnded osc onDone]) s
         else run_handler onDone (perform (take (completed f) block) s))"

definition stopAllAudio :: "fault \<Rightarrow> fault \<Rightarrow> session \<Rightarrow> session" where
  "stopAllAudio fg ft s =
     (case audioContext s of
        None \<Rightarrow> s
      | Some ctx \<Rightarrow>
          let s1 = (case (genOsc s, genGain s) of
                      (Some osc, Some gain) \<Rightarrow>
                        if genRunning s
                        then softStopNode fg osc gain ReleaseGenerator (s\<lparr>genRunning := False\<rparr>)
                        else s
                    | _ \<Rightarrow> s);
              s2 = (case (testOsc s1, testGain s1) of
                      (Some osc, Some gain) \<Rightarrow>
                        if testRunning s1
                        then softStopNode ft osc gain ReleaseTestTone (s1\<lparr>testRunning := False\<rparr>)
                        else s1
                    | _ \<Rightarrow> s1)
          in s2\<lparr>active_audio := False\<rparr>)"

subsection \<open>Frequency knob\<close>

definition setHz :: "real \<Rightarrow> session \<Rightarrow> session" where
  "setHz hz s =
     (let s1 = s\<lparr>currentHz := max MIN_HZ (min MAX_HZ (Math_round hz))\<rparr>;
          s2 = s1\<lparr>readout := currentHz s1, rotation := hzToAngle (of_int (currentHz s1))\<rparr>
      in case (audioContext s2, genOsc s2) of
           (Some ctx, Some osc) \<Rightarrow>
             if genRunning s2
             then perform [SetTargetAtTime (Frequency osc) (of_int (currentHz s2))
                             (currentTime s2) 0.02] s2
             else s2
         | _ \<Rightarrow> s2)"

subsection \<open>Generator start and stop\<close>

definition startGenerator :: "fault \<Rightarrow> fault \<Rightarrow> session \<Rightarrow> outcome" where
  "startGenerator fg ft s =
     (if genRunning s then Returns s
      else
        let s1 = (if testRunning s then stopAllAudio fg ft s else s)
        in case ensureContext s1 of
             Throws e s' \<Rightarrow> Throws e s'
           | Returns s2 \<Rightarrow>
               let osc = allocated s2; gain = osc + 1; lpf = osc + 2;
                   now = currentTime s2;
                   s3 = s2\<lparr>genOsc := Some osc, genGain := Some gain, genLPF := Some lpf,
                          allocated := osc + 3\<rparr>;
                   s4 = perform
                          [CreateOscillator osc, CreateGain gain, CreateBiquadFilter lpf,
                           SetType osc ''sine'',
                           SetValue (Frequency osc) (of_int (currentHz s3)),
                           SetType lpf ''lowpass'',
                           SetValue (Frequency lpf) 120,
                           SetValue (Q lpf) 0.707,
                           SetValueAtTime (Gain gain) 0 now,
                           Connect osc (Node lpf), Connect lpf (Node gain),
                           Connect gain Destination,
                           Start osc,
                           LinearRampToValueAtTime (Gain gain) 0.25 (now + 0.08)] s3
               in Returns (s4\<lparr>genRunning := True, active_audio := True\<rparr>))"

definition stopGenerator :: "fault \<Rightarrow> session \<Rightarrow> session" where
  "stopGenerator f s =
     (case (audioContext s, genOsc s, genGain s) of
        (Some ctx, Some osc, Some gain) \<Rightarrow>
          if genRunning s
          then (softStopNode f osc gain ReleaseGenerator (s\<lparr>genRunning := False\<rparr>))
                 \<lparr>active_audio := False\<rparr>
          else s
      | _ \<Rightarrow> s)"

subsection \<open>Test tone\<close>

definition playTestTone :: "fault \<Rightarrow> session \<Rightarrow> outcome" where
  "playTestTone f s =
     (if testRunning s then Returns s
      else
        let s1 = (if genRunning s then stopGenerator f s else s)
        in case ensureContext s1 of
             Throws e s' \<Rightarrow> Throws e s'
           | Returns s2 \<Rightarrow>
               let osc = allocated s2; gain = osc + 1;
                   now = currentTime s2;
                   s3 = s2\<lparr>testOsc := Some osc, testGain := Some gain, allocated := osc + 2\<rparr>;
                   s4 = perform
                          [CreateOscillator osc, CreateGain gain,
                           SetType osc ''sine'',
                           SetValue (Frequency osc) 3030,
                           SetValueAtTime (Gain gain) 0 now,
                           Connect osc (Node gain), Connect gain Destination,
                           Start osc,
                           LinearRampToValueAtTime (Gain gain) 0.20 (now + 0.08),
                           SetValueAtTime (Gain gain) 0.20 (now + 8.8),
                           LinearRampToValueAtTime (Gain gain) 0 (now + 9),
                           Stop osc (now + 9)] s3;
                   s5 = s4\<lparr>testRunning := True, active_audio := True\<rparr>
               in Returns (perform [SetOnEnded osc TestToneEnded] s5))"

subsection \<open>What the host does between two handlers of the page\<close>

text \<open>
  The host notifies the end of an oscillator that was started once the stop time of its
  last \<open>stop\<close> call has passed, and runs the function last assigned to its \<open>onended\<close>.
\<close>

fun onended_of :: "host_call list \<Rightarrow> node \<Rightarrow> handler option" where
  "onended_of [] n = None"
| "onended_of (c # cs) n =
     (case onended_of cs n of
        Some h \<Rightarrow> Some h
      | None \<Rightarrow> (case c of SetOnEnded m h \<Rightarrow> if m = n then Some h else None | _ \<Rightarrow> None))"

fun stop_time :: "host_call list \<Rightarrow> node \<Rightarrow> real option" where
  "stop_time [] n = None"
| "stop_time (c # cs) n =
     (case stop_time cs n of
        Some t \<Rightarrow> Some t
      | None \<Rightarrow> (case c of Stop m t \<Rightarrow> if m = n then Some t else None | _ \<Rightarrow> None))"

definition due :: "node \<Rightarrow> session \<Rightarrow> bool" where
  "due n s =
     (List.member (calls s) (Start n) \<and> \<not> List.member (ended s) n \<and>
      (case stop_time (calls s) n of Some t \<Rightarrow> t \<le> currentTime s | None \<Rightarrow> False))"

definition oscEnded :: "node \<Rightarrow> session \<Rightarrow> session" where
  "oscEnded n s =
     (let s1 = s\<lparr>ended := n # ended s\<rparr>
      in case onended_of (calls s) n of None \<Rightarrow> s1 | Some h \<Rightarrow> run_handler h s1)"

text \<open>
  The page is driven by the clicks on its four kinds of buttons, by the knob, by the passing
  of time and by the notifications of the host. A handler that throws leaves the page in
  the state it had at the throw.
\<close>

datatype event =
    ClickStart fault fault
  | ClickStop fault
  | ClickTest fault
  | ClickWarn fault fault
  | Knob real
  | Elapse real
  | Ended node

fun page :: "outcome \<Rightarrow> session" where
  "page (Returns s) = s"
| "page (Throws e s) = s"

fun step :: "event \<Rightarrow> session \<Rightarrow> session option" where
  "step (ClickStart fg ft) s = Some (page (startGenerator fg ft s))"
| "step (ClickStop f) s = Some (stopGenerator f s)"
| "step (ClickTest f) s = Some (page (playTestTone f s))"
| "step (ClickWarn fg ft) s = Some (stopAllAudio fg ft s)"
| "step (Knob hz) s = Some (setHz hz s)"
| "step (Elapse d) s = (if 0 \<le> d then Some (s\<lparr>currentTime := currentTime s + d\<rparr>) else None)"
| "step (Ended n) s = (if due n s then Some (oscEnded n s) else None)"

fun run :: "event list \<Rightarrow> session \<Rightarrow> session option" where
  "run [] s = Some s"
| "run (e # es) s = (case step e s of None \<Rightarrow> None | Some s' \<Rightarrow> run es s')"

text \<open>
  The state once the script has run at \<open>DOMContentLoaded\<close>: no context, no nodes, 30 Hz shown
  by \<open>setHz(currentHz)\<close>.
\<close>

definition loaded :: "bool \<Rightarrow> (node \<Rightarrow> real \<Rightarrow> real) \<Rightarrow> session" where
  "loaded cap rd =
     setHz 30
       \<lparr>audioContext = None, genOsc = None, genGain = None, genLPF = None,
        genRunning = False, testOsc = None, testGain = None, testRunning = False,
        currentHz = 30, active_audio = False, readout = 0, rotation = 0,
        capable = cap, currentTime = 0, allocated = 0, calls = [], ended = [],
        reading = rd\<rparr>"

text \<open>
  Two states used as examples: the page after a click on Start, and the page after a click
  on the test tone button, each right after loading.
\<close>

definition generating :: session where
  "generating = page (startGenerator NoFault NoFault (loaded True (\<lambda>g t. 1 / 4)))"

definition testing :: session where
  "testing = page (playTestTone NoFault (loaded True (\<lambda>g t. 1 / 5)))"

text \<open>
  The flags agree with the references: at most one source is flagged as running, and a
  source flagged as running holds its oscillator and its gain in a context.
\<close>

definition consistent :: "session \<Rightarrow> bool" where
  "consistent s =
     (\<not> (genRunning s \<and> testRunning s)
      \<and> (genRunning s \<longrightarrow> audioContext s \<noteq> None \<and> genOsc s \<noteq> None \<and> genGain s \<noteq> None)
      \<and> (testRunning s \<longrightarrow> audioContext s \<noteq> None \<and> testOsc s \<noteq> None \<and> testGain s \<noteq> None))"

text \<open>
  The host ends an oscillator at the time of its last \<open>stop\<close> call, if there is one; an
  oscillator that was started sounds until then.
\<close>

definition scheduled_stop :: "node \<Rightarrow> session \<Rightarrow> real option" where
  "scheduled_stop n s = stop_time (calls s) n"

definition sounding :: "node \<Rightarrow> session \<Rightarrow> bool" where
  "sounding n s =
     (List.member (calls s) (Start n) \<and> \<not> List.member (ended s) n \<and>
      (case scheduled_stop n s of Some t \<Rightarrow> currentTime s < t | None \<Rightarrow> True))"

text \<open>
  Two runs of the page on a host with an audio constructor whose gain nodes report the
  value \<open>1/5\<close>. In the first the generator is started, stopped two seconds later, and
  started again 30 ms after the stop; 40 ms after that the first oscillator reaches its
  stop time and the host notifies its end. The second does the same with the test tone,
  stopped by a panic button one second after its start.
\<close>

definition steady :: "node \<Rightarrow> real \<Rightarrow> real" where
  "steady g t = 1 / 5"

definition fresh_page :: session where
  "fresh_page = loaded True steady"

definition restart_generator :: "event list" where
  "restart_generator =
     [ClickStart NoFault NoFault, Elapse 2, ClickStop NoFault, Elapse 0.03,
      ClickStart NoFault NoFault, Elapse 0.04, Ended 0]"

definition restart_test :: "event list" where
  "restart_test =
     [ClickTest NoFault, Elapse 1, ClickWarn NoFault NoFault, Elapse 0.03,
      ClickTest NoFault, Elapse 0.04, Ended 0]"

section \<open>Frequency control\<close>

lemma currentHz_setHz: "currentHz (setHz v s) = max MIN_HZ (min MAX_HZ (Math_round v))"
  by (simp add: setHz_def Let_def perform_def split: option.splits)

lemma Math_round_round: "Math_round v = round v"
  by (simp add: Math_round_def round_def)

lemma Math_round_tie:
  assumes "frac v = 1 / 2"
  shows "Math_round v = \<lceil>v\<rceil>"
proof -
  from assms have v: "v = of_int \<lfloor>v\<rfloor> + 1 / 2"
    by (simp add: frac_def)
  have "Math_round v = \<lfloor>of_int \<lfloor>v\<rfloor> + (1::real)\<rfloor>"
    unfolding Math_round_def by (subst v) simp
  then have up: "Math_round v = \<lfloor>v\<rfloor> + 1"
    by simp
  have "\<lceil>v\<rceil> = \<lfloor>v\<rfloor> + 1"
    by (subst v, subst ceiling_unique [where z = "\<lfloor>v\<rfloor> + 1"]) auto
  with up show ?thesis
    by simp
qed

text \<open>
  Claim C4. For every requested value \<open>v\<close>, \<open>setHz v\<close> stores the nearest integer of \<open>v\<close>
  clamped to the range from 20 to 120: 15 gives 20, 125 gives 120 and 73.6 gives 74. \<open>setHz\<close>
  has no statement that throws, so it is a function from states to states and an
  out-of-range request is answered by the clamped value.
\<close>

theorem setHz_stores_clamped_round:
  "currentHz (setHz v s) =
     (if round v < 20 then 20 else if 120 < round v then 120 else round v)
   \<and> \<bar>of_int (round v) - v\<bar> \<le> 1 / 2
   \<and> currentHz (setHz 15 s) = 20
   \<and> currentHz (setHz 125 s) = 120
   \<and> currentHz (setHz 73.6 s) = 74"
proof -
  have stored: "currentHz (setHz x s) =
      (if round x < 20 then 20 else if 120 < round x then 120 else round x)" for x
    by (simp add: currentHz_setHz Math_round_round MIN_HZ_def MAX_HZ_def)
  have r1: "round (15::real) = 15"
    by simp
  have r2: "round (125::real) = 125"
    by simp
  have r3: "round (73.6::real) = 74"
    by (simp add: round_def)
  show ?thesis
    using stored [of v] stored [of 15] stored [of 125] stored [of "73.6"] r1 r2 r3
      of_int_round_abs_le [of v]
    by simp
qed

text \<open>
  Rounding to the nearest double changes a number by at most one part in \<open>2 ^ 53\<close>.
\<close>

lemma round_even_near: "\<bar>of_int (round_even y) - y\<bar> \<le> 1 / 2"
  unfolding round_even_def Let_def by (auto; linarith)

lemma double_rel: "\<bar>double x - x\<bar> \<le> 1 / 2 ^ 53 * \<bar>x\<bar>"
proof (cases "x = 0")
  case True
  then show ?thesis
    by (simp add: double_def)
next
  case False
  define u :: real where "u = 2 powr (of_int \<lfloor>log 2 \<bar>x\<bar>\<rfloor> - 52)"
  have upos: "0 < u"
    by (simp add: u_def)
  have d: "double x = of_int (round_even (x / u)) * u"
    using False by (simp add: double_def u_def Let_def)
  have "double x - x = (of_int (round_even (x / u)) - x / u) * u"
    using upos by (simp add: d algebra_simps)
  then have "\<bar>double x - x\<bar> = \<bar>of_int (round_even (x / u)) - x / u\<bar> * u"
    using upos by (simp add: abs_mult)
  also have "\<dots> \<le> 1 / 2 * u"
    using round_even_near [of "x / u"] upos by (intro mult_right_mono) auto
  finally have half: "\<bar>double x - x\<bar> \<le> u / 2"
    by simp
  have "of_int \<lfloor>log 2 \<bar>x\<bar>\<rfloor> - 52 \<le> log 2 \<bar>x\<bar> - 52"
    by simp
  then have "u \<le> 2 powr (log 2 \<bar>x\<bar> - 52)"
    unfolding u_def by (intro powr_mono) auto
  also have "\<dots> = \<bar>x\<bar> / 2 ^ 52"
    using False by (simp add: powr_diff powr_numeral [symmetric] del: powr_numeral)
  finally have "u \<le> \<bar>x\<bar> / 2 ^ 52" .
  with half show ?thesis
    by simp
qed

text \<open>
  The double of a number is computed from the power of two below it.
\<close>

lemma floor_log2:
  assumes "2 powr of_int e \<le> a" and "a < 2 powr of_int (e + 1)"
  shows "\<lfloor>log 2 a\<rfloor> = e"
proof -
  have "0 < (2::real) powr of_int e"
    by simp
  with assms(1) have pos: "0 < a"
    by linarith
  have "of_int e \<le> log 2 a"
    using assms(1) pos by (simp add: le_log_iff)
  moreover have "log 2 a < of_int (e + 1)"
    using assms(2) pos by (simp add: log_less_iff)
  ultimately show ?thesis
    by (intro floor_unique) auto
qed

lemma double_at:
  assumes "2 powr of_int e \<le> \<bar>x\<bar>" and "\<bar>x\<bar> < 2 powr of_int (e + 1)"
    and "round_even (x / 2 powr of_int (e - 52)) = m"
  shows "double x = of_int m * 2 powr of_int (e - 52)"
proof -
  have "0 < (2::real) powr of_int e"
    by simp
  with assms(1) have "0 < \<bar>x\<bar>"
    by linarith
  then have "x \<noteq> 0"
    by simp
  moreover have "\<lfloor>log 2 \<bar>x\<bar>\<rfloor> = e"
    using assms(1,2) by (rule floor_log2)
  ultimately show ?thesis
    using assms(3) by (simp add: double_def Let_def)
qed

lemmas double_simps = powr_minus round_even_def

lemma double_100: "double 100 = 100"
  using double_at [of 6 100 "100 * 2 ^ 46"] by (simp add: double_simps)

text \<open>
  The knob angle of 73 Hz: \<open>53 / 100\<close> is not a double, and the script's angle is
  \<open>8.099999999999994\<close>, not \<open>8.1\<close>.
\<close>

lemma double_53: "double 53 = 53"
  using double_at [of 5 53 "53 * 2 ^ 47"] by (simp add: double_simps)

lemma double_053: "double (53 / 100) = 2386907802506363 / 4503599627370496"
  using double_at [of "- 1" "53 / 100" 4773815605012726] by (simp add: double_simps)

lemma double_1431:
  "double (2386907802506363 / 4503599627370496 * 270) = 5034883645911859 / 35184372088832"
  using double_at [of 7 "2386907802506363 / 4503599627370496 * 270" 5034883645911859]
  by (simp add: double_simps)

lemma double_81:
  "double (- 135 + 5034883645911859 / 35184372088832) = 284993413919539 / 35184372088832"
  using double_at [of 3 "- 135 + 5034883645911859 / 35184372088832" 4559894622712624]
  by (simp add: double_simps)

lemma hzToAngle_73: "hzToAngle 73 = 284993413919539 / 35184372088832"
proof -
  have "hzToAngle 73 = double (- 135 + double (double (double 53 / double 100) * 270))"
    by (simp add: hzToAngle_def hzToAngle_fl_def MIN_HZ_def MAX_HZ_def)
  also have "\<dots> = double (- 135 + double (double (53 / 100) * 270))"
    by (simp only: double_53 double_100)
  also have "\<dots> = double (- 135 + double (2386907802506363 / 4503599627370496 * 270))"
    by (simp only: double_053)
  also have "\<dots> = double (- 135 + 5034883645911859 / 35184372088832)"
    by (simp only: double_1431)
  also have "\<dots> = 284993413919539 / 35184372088832"
    by (simp only: double_81)
  finally show ?thesis .
qed

text \<open>
  The frequency of the double nearest to the angle \<open>9.45\<close>, before \<open>Math.round\<close>: the
  last addition rounds to \<open>73.5\<close>.
\<close>

lemma double_14445:
  "double (2659938529915699 / 281474976710656 + 135) = 2541191274115891 / 17592186044416"
  using double_at [of 7 "2659938529915699 / 281474976710656 + 135" 5082382548231782]
  by (simp add: double_simps)

lemma double_0535:
  "double (2541191274115891 / 17592186044416 / 270) = 2409425800643215 / 4503599627370496"
  using double_at [of "- 1" "2541191274115891 / 17592186044416 / 270" 4818851601286430]
  by (simp add: double_simps)

lemma double_535:
  "double (2409425800643215 / 4503599627370496 * 100) = 7529455627010047 / 140737488355328"
  using double_at [of 5 "2409425800643215 / 4503599627370496 * 100" 7529455627010047]
  by (simp add: double_simps)

lemma double_735: "double (20 + 7529455627010047 / 140737488355328) = 147 / 2"
  using double_at [of 6 "20 + 7529455627010047 / 140737488355328" 5172102697058304]
  by (simp add: double_simps)

lemma knob_945:
  "double (of_int MIN_HZ +
     double (double (double (max (- 135) (min 135 (2659938529915699 / 281474976710656)) + 135)
       / 270) * double (of_int MAX_HZ - of_int MIN_HZ))) = 147 / 2"
proof -
  have "double (of_int MIN_HZ +
     double (double (double (max (- 135) (min 135 (2659938529915699 / 281474976710656)) + 135)
       / 270) * double (of_int MAX_HZ - of_int MIN_HZ)))
     = double (20 + double (double (double (2659938529915699 / 281474976710656 + 135) / 270)
         * double 100))"
    by (simp add: MIN_HZ_def MAX_HZ_def)
  also have "\<dots> = double (20 + double (double (2541191274115891 / 17592186044416 / 270) * 100))"
    by (simp only: double_14445 double_100)
  also have "\<dots> = double (20 + double (2409425800643215 / 4503599627370496 * 100))"
    by (simp only: double_0535)
  also have "\<dots> = double (20 + 7529455627010047 / 140737488355328)"
    by (simp only: double_535)
  also have "\<dots> = 147 / 2"
    by (simp only: double_735)
  finally show ?thesis .
qed

text \<open>
  The round trip in rounded arithmetic. Every intermediate value is followed with a bound
  on its distance from the exact value; a relative error of one part in ten thousand per
  operation is already small enough.
\<close>

lemma abs_mult_bound:
  fixes a b :: real
  assumes "\<bar>a\<bar> \<le> A" and "\<bar>b\<bar> \<le> B"
  shows "\<bar>a * b\<bar> \<le> A * B"
proof -
  have "\<bar>a * b\<bar> = \<bar>a\<bar> * \<bar>b\<bar>"
    by (simp add: abs_mult)
  also have "\<dots> \<le> A * B"
    using assms by (intro mult_mono) auto
  finally show ?thesis .
qed

lemma rnd_near:
  fixes rnd :: "real \<Rightarrow> real"
  assumes "\<forall>x. \<bar>rnd x - x\<bar> \<le> e * \<bar>x\<bar>" and "0 \<le> e" and "e \<le> 1 / 10000"
    and "\<bar>x\<bar> \<le> B"
  shows "\<bar>rnd x - x\<bar> \<le> B / 10000"
proof -
  have "\<bar>rnd x - x\<bar> \<le> e * \<bar>x\<bar>"
    using assms(1) by blast
  also have "\<dots> \<le> (1 / 10000) * B"
    using assms(2,3,4) by (intro mult_mono) auto
  finally show ?thesis
    by simp
qed

lemma hzToAngle_fl_near:
  fixes rnd :: "real \<Rightarrow> real"
  assumes r: "\<forall>x. \<bar>rnd x - x\<bar> \<le> e * \<bar>x\<bar>" and e: "0 \<le> e" "e \<le> 1 / 10000"
    and x: "0 \<le> x" "x \<le> 100"
  shows "\<bar>hzToAngle_fl rnd (20 + x) - (- 135 + 27 / 10 * x)\<bar> \<le> 18 / 100"
proof -
  note near = rnd_near [OF r e]
  define d where "d = rnd (20 + x - 20)"
  define c where "c = rnd 100"
  define q where "q = d / c"
  define t where "t = rnd q"
  define m where "m = rnd (t * 270)"
  define a where "a = rnd (- 135 + m)"
  have "\<bar>20 + x - 20\<bar> \<le> 100"
    using x by linarith
  from near [OF this] have d: "\<bar>d - x\<bar> \<le> 1 / 100"
    by (simp add: d_def)
  have "\<bar>100 :: real\<bar> \<le> 100"
    by simp
  from near [OF this] have c: "\<bar>c - 100\<bar> \<le> 1 / 100"
    by (simp add: c_def)
  have cpos: "0 < c"
    using c by linarith
  have qc: "q * c = d"
    using cpos by (simp add: q_def)
  have qb: "\<bar>q\<bar> \<le> 1001 / 1000"
  proof -
    have "\<bar>d\<bar> \<le> 1001 / 1000 * c"
      using d c x by linarith
    then have "\<bar>d\<bar> / c \<le> 1001 / 1000"
      using cpos by (simp add: pos_divide_le_eq)
    then show ?thesis
      using cpos by (simp add: q_def)
  qed
  have "100 * q - x = q * (100 - c) + (d - x)"
    using qc by (simp add: algebra_simps)
  moreover have "\<bar>q * (100 - c)\<bar> \<le> 1001 / 1000 * (1 / 100)"
  proof (rule abs_mult_bound)
    show "\<bar>q\<bar> \<le> 1001 / 1000"
      by (rule qb)
    show "\<bar>100 - c\<bar> \<le> 1 / 100"
      using c by linarith
  qed
  ultimately have q: "\<bar>100 * q - x\<bar> \<le> 201 / 10000"
    using d by linarith
  have "\<bar>q\<bar> \<le> 2"
    using qb by linarith
  from near [OF this] have t: "\<bar>t - q\<bar> \<le> 2 / 10000"
    by (simp add: t_def)
  have tq: "\<bar>100 * t - x\<bar> \<le> 401 / 10000"
    using t q by linarith
  have "\<bar>t * 270\<bar> \<le> 271"
    using tq x by linarith
  from near [OF this] have m: "\<bar>m - t * 270\<bar> \<le> 271 / 10000"
    by (simp add: m_def)
  have "\<bar>- 135 + m\<bar> \<le> 136"
    using m tq x by linarith
  from near [OF this] have a: "\<bar>a - (- 135 + m)\<bar> \<le> 136 / 10000"
    by (simp add: a_def)
  have "hzToAngle_fl rnd (20 + x) = a"
    by (simp add: hzToAngle_fl_def MIN_HZ_def MAX_HZ_def a_def m_def t_def q_def d_def c_def)
  then show ?thesis
    using a m tq by linarith
qed

lemma angleToHz_fl_near:
  fixes rnd :: "real \<Rightarrow> real"
  assumes r: "\<forall>x. \<bar>rnd x - x\<bar> \<le> e * \<bar>x\<bar>" and e: "0 \<le> e" "e \<le> 1 / 10000"
    and x: "0 \<le> x" "x \<le> 100"
    and a: "\<bar>a - (- 135 + 27 / 10 * x)\<bar> \<le> 18 / 100"
  shows "\<exists>h. angleToHz_fl rnd a = Math_round h \<and> \<bar>h - (20 + x)\<bar> \<le> 14 / 100"
proof -
  note near = rnd_near [OF r e]
  define a' where "a' = max (- 135) (min 135 a)"
  define b where "b = rnd (a' + 135)"
  define u where "u = b / 270"
  define t where "t = rnd u"
  define c where "c = rnd 100"
  define p where "p = rnd (t * c)"
  define h where "h = rnd (20 + p)"
  have a': "\<bar>a' - (- 135 + 27 / 10 * x)\<bar> \<le> 18 / 100"
    using a x unfolding a'_def by linarith
  have "\<bar>a' + 135\<bar> \<le> 271"
    using a' x by linarith
  from near [OF this] have b: "\<bar>b - (a' + 135)\<bar> \<le> 271 / 10000"
    by (simp add: b_def)
  have ub: "270 * u = b"
    by (simp add: u_def)
  have u: "\<bar>270 * u - 27 / 10 * x\<bar> \<le> 2071 / 10000"
    using a' b ub by linarith
  have "\<bar>u\<bar> \<le> 2"
    using u x by linarith
  from near [OF this] have t: "\<bar>t - u\<bar> \<le> 2 / 10000"
    by (simp add: t_def)
  have tx: "\<bar>100 * t - x\<bar> \<le> 968 / 10000"
    using t u by linarith
  have tb: "\<bar>t\<bar> \<le> 2"
    using tx x by linarith
  have "\<bar>100 :: real\<bar> \<le> 100"
    by simp
  from near [OF this] have c: "\<bar>c - 100\<bar> \<le> 1 / 100"
    by (simp add: c_def)
  have "t * c - x = t * (c - 100) + (100 * t - x)"
    by (simp add: algebra_simps)
  moreover have "\<bar>t * (c - 100)\<bar> \<le> 2 * (1 / 100)"
    using tb c by (rule abs_mult_bound)
  ultimately have tc: "\<bar>t * c - x\<bar> \<le> 1168 / 10000"
    using tx by linarith
  have "\<bar>t * c\<bar> \<le> 101"
    using tc x by linarith
  from near [OF this] have p: "\<bar>p - t * c\<bar> \<le> 101 / 10000"
    by (simp add: p_def)
  have "\<bar>20 + p\<bar> \<le> 121"
    using p tc x by linarith
  from near [OF this] have h: "\<bar>h - (20 + p)\<bar> \<le> 121 / 10000"
    by (simp add: h_def)
  have "angleToHz_fl rnd a = Math_round h"
    by (simp add: angleToHz_fl_def MIN_HZ_def MAX_HZ_def Let_def
        h_def p_def c_def t_def u_def b_def a'_def)
  moreover have "\<bar>h - (20 + x)\<bar> \<le> 14 / 100"
    using h p tc by linarith
  ultimately show ?thesis
    by blast
qed

lemma Math_round_near:
  assumes "\<bar>h - of_int n\<bar> < 1 / 2"
  shows "Math_round h = n"
  unfolding Math_round_def using assms by (intro floor_unique) linarith+

lemma round_trip_fl:
  fixes rnd :: "real \<Rightarrow> real"
  assumes r: "\<forall>x. \<bar>rnd x - x\<bar> \<le> e * \<bar>x\<bar>" and e: "0 \<le> e" "e \<le> 1 / 10000"
    and n: "20 \<le> n" "n \<le> 120"
  shows "angleToHz_fl rnd (hzToAngle_fl rnd (of_int n)) = n"
proof -
  define x :: real where "x = of_int n - 20"
  have x: "0 \<le> x" "x \<le> 100"
    using n by (simp_all add: x_def)
  have n': "of_int n = 20 + x"
    by (simp add: x_def)
  from hzToAngle_fl_near [OF r e x]
  have "\<bar>hzToAngle_fl rnd (of_int n) - (- 135 + 27 / 10 * x)\<bar> \<le> 18 / 100"
    by (simp add: n')
  from angleToHz_fl_near [OF r e x this] obtain h where
    h: "angleToHz_fl rnd (hzToAngle_fl rnd (of_int n)) = Math_round h"
    and near: "\<bar>h - (20 + x)\<bar> \<le> 14 / 100"
    by blast
  from near have "\<bar>h - of_int n\<bar> < 1 / 2"
    by (simp add: n')
  from Math_round_near [OF this] h show ?thesis
    by simp
qed

text \<open>
  Claim C5. For every whole number of hertz from 20 to 120 (a frequency setting: all that
  \<open>setHz\<close> stores and all that the script passes to \<open>hzToAngle\<close>), the frequency that
  \<open>angleToHz\<close> reads back from the knob angle of \<open>hzToAngle\<close> is that number. The
  angle itself is in general not the exact one, and the round trip does not need it to be:
  it returns the number whenever every operation of the two functions is rounded with a
  relative error of at most one part in ten thousand.
\<close>

theorem angleToHz_hzToAngle:
  assumes "20 \<le> n" and "n \<le> 120"
  shows "angleToHz (hzToAngle (of_int n)) = n
         \<and> (0 \<le> e \<and> e \<le> 1 / 10000 \<and> (\<forall>x. \<bar>rnd x - x\<bar> \<le> e * \<bar>x\<bar>) \<longrightarrow>
              angleToHz_fl rnd (hzToAngle_fl rnd (of_int n)) = n)"
proof -
  have d: "\<forall>x. \<bar>double x - x\<bar> \<le> 1 / 2 ^ 53 * \<bar>x\<bar>"
    using double_rel by blast
  have e53: "(0::real) \<le> 1 / 2 ^ 53" "(1::real) / 2 ^ 53 \<le> 1 / 10000"
    by simp_all
  from round_trip_fl [OF d e53 assms]
  have script: "angleToHz (hzToAngle (of_int n)) = n"
    by (simp add: angleToHz_def hzToAngle_def)
  have rounded: "angleToHz_fl rnd (hzToAngle_fl rnd (of_int n)) = n"
    if "0 \<le> e" "e \<le> 1 / 10000" and r: "\<forall>x. \<bar>rnd x - x\<bar> \<le> e * \<bar>x\<bar>"
    using round_trip_fl [OF r that(1,2) assms] .
  from script rounded show ?thesis
    by blast
qed

theorem angleToHz_hzToAngle_witness:
  "(20::int) \<le> 73 \<and> (73::int) \<le> 120
   \<and> (0::real) \<le> 1 / 2 ^ 53 \<and> (1::real) / 2 ^ 53 \<le> 1 / 10000
   \<and> (\<forall>x. \<bar>double x - x\<bar> \<le> 1 / 2 ^ 53 * \<bar>x\<bar>)
   \<and> angleToHz (hzToAngle 73) = 73
   \<and> angleToHz_fl double (hzToAngle_fl double 73) = 73"
proof -
  have lo: "(20::int) \<le> 73" and hi: "(73::int) \<le> 120"
    by simp_all
  have e: "(0::real) \<le> 1 / 2 ^ 53" "(1::real) / 2 ^ 53 \<le> 1 / 10000"
    by simp_all
  have r: "\<forall>x. \<bar>double x - x\<bar> \<le> 1 / 2 ^ 53 * \<bar>x\<bar>"
    using double_rel by blast
  note trip = angleToHz_hzToAngle [OF lo hi, of "1 / 2 ^ 53" double]
  from trip have script: "angleToHz (hzToAngle 73) = 73"
    by simp
  from trip e r have rounded: "angleToHz_fl double (hzToAngle_fl double 73) = 73"
    by simp
  from lo hi e r script rounded show ?thesis
    by blast
qed

text \<open>
  Claim C10. A requested value whose fractional part is exactly one half is rounded to the
  integer above it before it is clamped: 73.5 is stored as 74 and 20.5 as 21. \<open>angleToHz\<close>
  rounds in the same way the frequency it has computed for its angle: when that double
  lies half way between two integers, the result is the integer above it. The double
  nearest to the angle 9.45 gives the double 73.5 and reads as 74.
\<close>

theorem setHz_rounds_half_up:
  assumes "frac v = 1 / 2"
  shows "Math_round v = \<lceil>v\<rceil>
         \<and> currentHz (setHz v s) = max 20 (min 120 \<lceil>v\<rceil>)
         \<and> currentHz (setHz 73.5 s) = 74
         \<and> currentHz (setHz 20.5 s) = 21
         \<and> (let hz = rnd (of_int MIN_HZ +
                        rnd (rnd (rnd (max (- 135) (min 135 a) + 135) / 270)
                          * rnd (of_int MAX_HZ - of_int MIN_HZ)))
            in frac hz = 1 / 2 \<longrightarrow> angleToHz_fl rnd a = \<lceil>hz\<rceil>)
         \<and> (let hz = double (of_int MIN_HZ +
                        double (double (double (max (- 135) (min 135 a) + 135) / 270)
                          * double (of_int MAX_HZ - of_int MIN_HZ)))
            in frac hz = 1 / 2 \<longrightarrow> angleToHz a = \<lceil>hz\<rceil>)"
proof -
  have up: "Math_round v = \<lceil>v\<rceil>"
    using assms by (rule Math_round_tie)
  have stored: "currentHz (setHz v s) = max 20 (min 120 \<lceil>v\<rceil>)"
    by (simp add: currentHz_setHz up MIN_HZ_def MAX_HZ_def)
  have e1: "currentHz (setHz 73.5 s) = 74"
    by (simp add: currentHz_setHz Math_round_def MIN_HZ_def MAX_HZ_def)
  have e2: "currentHz (setHz 20.5 s) = 21"
    by (simp add: currentHz_setHz Math_round_def MIN_HZ_def MAX_HZ_def)
  have knob: "angleToHz_fl r a = \<lceil>hz\<rceil>"
    if "hz = r (of_int MIN_HZ +
                  r (r (r (max (- 135) (min 135 a) + 135) / 270)
                    * r (of_int MAX_HZ - of_int MIN_HZ)))"
      and "frac hz = 1 / 2" for r hz
  proof -
    have "angleToHz_fl r a = Math_round hz"
      by (simp add: angleToHz_fl_def Let_def that(1))
    with Math_round_tie [OF that(2)] show ?thesis
      by simp
  qed
  have rounded: "let hz = rnd (of_int MIN_HZ +
                        rnd (rnd (rnd (max (- 135) (min 135 a) + 135) / 270)
                          * rnd (of_int MAX_HZ - of_int MIN_HZ)))
            in frac hz = 1 / 2 \<longrightarrow> angleToHz_fl rnd a = \<lceil>hz\<rceil>"
    unfolding Let_def using knob [OF refl] by blast
  have script: "let hz = double (of_int MIN_HZ +
                        double (double (double (max (- 135) (min 135 a) + 135) / 270)
                          * double (of_int MAX_HZ - of_int MIN_HZ)))
            in frac hz = 1 / 2 \<longrightarrow> angleToHz a = \<lceil>hz\<rceil>"
    unfolding Let_def angleToHz_def using knob [OF refl] by blast
  from up stored e1 e2 rounded script show ?thesis
    by blast
qed

theorem setHz_rounds_half_up_witness:
  "frac (73.5::real) = 1 / 2
   \<and> currentHz (setHz 73.5 (loaded True (\<lambda>g t. 0))) = 74
   \<and> double (of_int MIN_HZ +
       double (double (double (max (- 135) (min 135 (2659938529915699 / 281474976710656)) + 135)
         / 270) * double (of_int MAX_HZ - of_int MIN_HZ))) = 147 / 2
   \<and> frac (147 / 2 :: real) = 1 / 2
   \<and> angleToHz (2659938529915699 / 281474976710656) = 74
   \<and> angleToHz_fl double (2659938529915699 / 281474976710656) = 74"
proof -
  have tie: "frac (73.5::real) = 1 / 2"
    by (simp add: frac_def)
  have mid: "frac (147 / 2 :: real) = 1 / 2"
    by (simp add: frac_def)
  have above: "\<lceil>147 / 2 :: real\<rceil> = 74"
    by simp
  note half = setHz_rounds_half_up [OF tie, of "loaded True (\<lambda>g t. 0)" double
      "2659938529915699 / 281474976710656"]
  from half have stored: "currentHz (setHz 73.5 (loaded True (\<lambda>g t. 0))) = 74"
    by blast
  from half have "frac (147 / 2 :: real) = 1 / 2 \<longrightarrow>
      angleToHz (2659938529915699 / 281474976710656) = \<lceil>147 / 2 :: real\<rceil>"
    unfolding Let_def knob_945 by blast
  with mid above have script: "angleToHz (2659938529915699 / 281474976710656) = 74"
    by simp
  from half have "frac (147 / 2 :: real) = 1 / 2 \<longrightarrow>
      angleToHz_fl double (2659938529915699 / 281474976710656) = \<lceil>147 / 2 :: real\<rceil>"
    unfolding Let_def knob_945 by blast
  with mid above have rounded: "angleToHz_fl double (2659938529915699 / 281474976710656) = 74"
    by simp
  from tie stored knob_945 mid script rounded show ?thesis
    by blast
qed

section \<open>Audio session\<close>

lemmas script_defs =
  loaded_def setHz_def Math_round_def MIN_HZ_def MAX_HZ_def
  startGenerator_def stopGenerator_def playTestTone_def stopAllAudio_def
  softStopNode_def ensureContext_def perform_def Let_def

lemma generating_fields:
  "genRunning generating" "\<not> testRunning generating"
  "audioContext generating = Some AudioContext"
  "genOsc generating = Some 0" "genGain generating = Some 1" "genLPF generating = Some 2"
  "currentTime generating = 0" "currentHz generating = 30" "active_audio generating"
  by (simp_all add: generating_def script_defs)

lemma testing_fields:
  "testRunning testing" "\<not> genRunning testing"
  "audioContext testing = Some AudioContext"
  "testOsc testing = Some 0" "testGain testing = Some 1"
  "currentTime testing = 0" "active_audio testing"
  by (simp_all add: testing_def script_defs)

lemma onended_of_append:
  "onended_of (cs @ ds) n =
     (case onended_of ds n of None \<Rightarrow> onended_of cs n | Some h \<Rightarrow> Some h)"
  by (induction cs) (auto split: option.splits)

lemma stop_time_append:
  "stop_time (cs @ ds) n =
     (case stop_time ds n of None \<Rightarrow> stop_time cs n | Some t \<Rightarrow> Some t)"
  by (induction cs) (auto split: option.splits)

lemma softStopNode_NoFault:
  "softStopNode NoFault osc gain h s =
     s\<lparr>calls := calls s @
        [CancelScheduledValues (Gain gain) (currentTime s),
         SetValueAtTime (Gain gain) (reading s gain (currentTime s)) (currentTime s),
         LinearRampToValueAtTime (Gain gain) 0 (currentTime s + 0.06),
         Stop osc (currentTime s + 0.06 + 0.01),
         SetOnEnded osc h]\<rparr>"
  by (simp add: softStopNode_def perform_def Let_def)

text \<open>
  The stop of a generator that holds its nodes. The generator is the running source and
  is stopped by the Stop button or by a panic button, and the host accepts the schedule:
  the gain is held at the value it has now and ramped linearly to 0 at 60 ms from now, the
  oscillator is told to stop 10 ms after the end of the ramp, and the generator's release
  function becomes the oscillator's \<open>onended\<close>. The node references are kept until then.
  When the host notifies the end of the oscillator, the references to oscillator, gain and
  filter are dropped and neither source is running.
\<close>

lemma stop_generator_soft_stop:
  assumes "genRunning s" and "\<not> testRunning s" and "audioContext s = Some c"
    and "genOsc s = Some osc" and "genGain s = Some gain"
    and "s' = stopGenerator NoFault s \<or> s' = stopAllAudio NoFault ft s"
  shows "calls s' = calls s @
           [CancelScheduledValues (Gain gain) (currentTime s),
            SetValueAtTime (Gain gain) (reading s gain (currentTime s)) (currentTime s),
            LinearRampToValueAtTime (Gain gain) 0 (currentTime s + 0.06),
            Stop osc (currentTime s + 0.06 + 0.01),
            SetOnEnded osc ReleaseGenerator]
         \<and> stop_time (calls s') osc = Some (currentTime s + 0.07)
         \<and> onended_of (calls s') osc = Some ReleaseGenerator
         \<and> genOsc s' = Some osc \<and> genGain s' = Some gain \<and> genLPF s' = genLPF s
         \<and> genOsc (oscEnded osc s') = None
         \<and> genGain (oscEnded osc s') = None
         \<and> genLPF (oscEnded osc s') = None
         \<and> \<not> genRunning (oscEnded osc s') \<and> \<not> testRunning (oscEnded osc s')
         \<and> \<not> active_audio (oscEnded osc s')"
proof -
  let ?block = "[CancelScheduledValues (Gain gain) (currentTime s),
            SetValueAtTime (Gain gain) (reading s gain (currentTime s)) (currentTime s),
            LinearRampToValueAtTime (Gain gain) 0 (currentTime s + 0.06),
            Stop osc (currentTime s + 0.06 + 0.01),
            SetOnEnded osc ReleaseGenerator]"
  let ?stopped = "s\<lparr>genRunning := False, calls := calls s @ ?block, active_audio := False\<rparr>"
  have button: "stopGenerator NoFault s = ?stopped"
    using assms(1-5) by (simp add: stopGenerator_def softStopNode_NoFault)
  have panic: "stopAllAudio NoFault ft s = ?stopped"
    using assms(1-5)
    by (simp add: stopAllAudio_def softStopNode_NoFault Let_def split: option.splits)
  from assms(6) button panic have s': "s' = ?stopped"
    by auto
  have log: "calls s' = calls s @ ?block"
    by (simp add: s')
  have handler: "onended_of (calls s') osc = Some ReleaseGenerator"
    by (simp add: log onended_of_append)
  have halt: "stop_time (calls s') osc = Some (currentTime s + 0.07)"
    by (simp add: log stop_time_append)
  have notified: "oscEnded osc s' = run_handler ReleaseGenerator (s'\<lparr>ended := osc # ended s'\<rparr>)"
    by (simp add: oscEnded_def handler Let_def)
  show ?thesis
    using assms(1-5) log handler halt by (simp add: notified) (simp add: s')
qed

lemma stop_generator_soft_stop_witness:
  "genRunning generating \<and> \<not> testRunning generating
   \<and> audioContext generating = Some AudioContext
   \<and> genOsc generating = Some 0 \<and> genGain generating = Some 1
   \<and> stop_time (calls (stopGenerator NoFault generating)) 0
       = Some (currentTime generating + 0.07)
   \<and> genOsc (oscEnded 0 (stopGenerator NoFault generating)) = None
   \<and> \<not> genRunning (oscEnded 0 (stopGenerator NoFault generating))"
  using stop_generator_soft_stop
      [OF generating_fields(1,2,3,4,5), of "stopGenerator NoFault generating" NoFault]
    generating_fields
  by blast

lemma softStopNode_release_fields:
  assumes "h = ReleaseGenerator \<or> h = ReleaseTestTone"
  shows "genRunning (softStopNode f osc gain h s) = genRunning s"
    and "testRunning (softStopNode f osc gain h s) = testRunning s"
    and "active_audio (softStopNode f osc gain h s) = active_audio s"
    and "audioContext (softStopNode f osc gain h s) = audioContext s"
    and "currentHz (softStopNode f osc gain h s) = currentHz s"
  using assms by (auto simp: softStopNode_def perform_def Let_def)

lemma softStopNode_ReleaseGenerator_fault:
  "f \<noteq> NoFault \<Longrightarrow>
   softStopNode f osc gain ReleaseGenerator s =
     s\<lparr>genOsc := None, genGain := None, genLPF := None,
       calls := calls s @ take (completed f)
         [CancelScheduledValues (Gain gain) (currentTime s),
          SetValueAtTime (Gain gain) (reading s gain (currentTime s)) (currentTime s),
          LinearRampToValueAtTime (Gain gain) 0 (currentTime s + 0.06),
          Stop osc (currentTime s + 0.07)]\<rparr>"
  by (simp add: softStopNode_def perform_def Let_def)

lemma softStopNode_ReleaseTestTone_fault:
  "f \<noteq> NoFault \<Longrightarrow>
   softStopNode f osc gain ReleaseTestTone s =
     s\<lparr>testOsc := None, testGain := None,
       calls := calls s @ take (completed f)
         [CancelScheduledValues (Gain gain) (currentTime s),
          SetValueAtTime (Gain gain) (reading s gain (currentTime s)) (currentTime s),
          LinearRampToValueAtTime (Gain gain) 0 (currentTime s + 0.06),
          Stop osc (currentTime s + 0.07)]\<rparr>"
  by (simp add: softStopNode_def perform_def Let_def)

lemma softStopNode_gen_keeps_test:
  "testOsc (softStopNode f osc gain ReleaseGenerator s) = testOsc s"
  "testGain (softStopNode f osc gain ReleaseGenerator s) = testGain s"
  by (simp_all add: softStopNode_def perform_def Let_def)

lemma softStopNode_test_keeps_gen:
  "genOsc (softStopNode f osc gain ReleaseTestTone s) = genOsc s"
  "genGain (softStopNode f osc gain ReleaseTestTone s) = genGain s"
  "genLPF (softStopNode f osc gain ReleaseTestTone s) = genLPF s"
  by (simp_all add: softStopNode_def perform_def Let_def)

lemma stopAllAudio_flags:
  assumes "audioContext s = Some c"
    and "genRunning s \<longrightarrow> genOsc s \<noteq> None \<and> genGain s \<noteq> None"
    and "testRunning s \<longrightarrow> testOsc s \<noteq> None \<and> testGain s \<noteq> None"
  shows "\<not> genRunning (stopAllAudio fg ft s)" "\<not> testRunning (stopAllAudio fg ft s)"
    "\<not> active_audio (stopAllAudio fg ft s)"
  using assms
  by (auto simp: stopAllAudio_def Let_def softStopNode_release_fields softStopNode_gen_keeps_test
      split: option.splits)

lemma stopAllAudio_gen_fault:
  assumes "audioContext s = Some c" and "genRunning s" and "genOsc s = Some osc" and "genGain s = Some gain"
    and "fg \<noteq> NoFault"
  shows "genOsc (stopAllAudio fg ft s) = None" "genGain (stopAllAudio fg ft s) = None"
    "genLPF (stopAllAudio fg ft s) = None"
  using assms
  by (auto simp: stopAllAudio_def Let_def softStopNode_ReleaseGenerator_fault softStopNode_test_keeps_gen
      split: option.splits)

lemma stopAllAudio_test_fault:
  assumes "audioContext s = Some c" and "testRunning s" and "testOsc s = Some osc" and "testGain s = Some gain"
    and "ft \<noteq> NoFault"
  shows "testOsc (stopAllAudio fg ft s) = None" "testGain (stopAllAudio fg ft s) = None"
  using assms
  by (auto simp: stopAllAudio_def Let_def softStopNode_ReleaseTestTone_fault softStopNode_gen_keeps_test softStopNode_release_fields
      split: option.splits)

lemma stopGenerator_fault:
  assumes "audioContext s = Some c" and "genRunning s" and "genOsc s = Some osc" and "genGain s = Some gain"
    and "f \<noteq> NoFault"
  shows "stopGenerator f s =
     s\<lparr>genRunning := False, genOsc := None, genGain := None, genLPF := None,
       calls := calls s @ take (completed f)
         [CancelScheduledValues (Gain gain) (currentTime s),
          SetValueAtTime (Gain gain) (reading s gain (currentTime s)) (currentTime s),
          LinearRampToValueAtTime (Gain gain) 0 (currentTime s + 0.06),
          Stop osc (currentTime s + 0.07)],
       active_audio := False\<rparr>"
  using assms by (simp add: stopGenerator_def softStopNode_ReleaseGenerator_fault)

text \<open>
  A host failure while a soft stop is being scheduled. When the host throws in the \<open>try\<close>
  block, the release function runs in the same call. From a state with a context in which
  each running source holds its oscillator and gain, a panic stop leaves both running flags
  and the \<open>active-audio\<close> class cleared whatever the host does, and the references of a
  source whose schedule failed are dropped at once; the Stop button does the same for the
  generator, and no \<open>onended\<close> function is left with the host. The page does not keep
  every running source in possession of its oscillator and gain: see the last section.
\<close>

lemma soft_stop_failure_forces_idle:
  assumes "audioContext s = Some c"
    and "genRunning s \<longrightarrow> genOsc s = Some gosc \<and> genGain s = Some ggain"
    and "testRunning s \<longrightarrow> testOsc s = Some tosc \<and> testGain s = Some tgain"
  shows "\<not> genRunning (stopAllAudio fg ft s)
         \<and> \<not> testRunning (stopAllAudio fg ft s)
         \<and> \<not> active_audio (stopAllAudio fg ft s)
         \<and> (genRunning s \<and> fg \<noteq> NoFault \<longrightarrow>
              genOsc (stopAllAudio fg ft s) = None
              \<and> genGain (stopAllAudio fg ft s) = None
              \<and> genLPF (stopAllAudio fg ft s) = None)
         \<and> (testRunning s \<and> ft \<noteq> NoFault \<longrightarrow>
              testOsc (stopAllAudio fg ft s) = None
              \<and> testGain (stopAllAudio fg ft s) = None)
         \<and> (genRunning s \<and> fg \<noteq> NoFault \<longrightarrow>
              stopGenerator fg s =
                s\<lparr>genRunning := False, genOsc := None, genGain := None, genLPF := None,
                  calls := calls s @ take (completed fg)
                    [CancelScheduledValues (Gain ggain) (currentTime s),
                     SetValueAtTime (Gain ggain) (reading s ggain (currentTime s))
                       (currentTime s),
                     LinearRampToValueAtTime (Gain ggain) 0 (currentTime s + 0.06),
                     Stop gosc (currentTime s + 0.07)],
                  active_audio := False\<rparr>)"
proof -
  have flags: "\<not> genRunning (stopAllAudio fg ft s)" "\<not> testRunning (stopAllAudio fg ft s)"
    "\<not> active_audio (stopAllAudio fg ft s)"
    using assms by (simp_all add: stopAllAudio_flags)
  have gen: "genOsc (stopAllAudio fg ft s) = None \<and> genGain (stopAllAudio fg ft s) = None
      \<and> genLPF (stopAllAudio fg ft s) = None" if "genRunning s" "fg \<noteq> NoFault"
    using assms that by (simp add: stopAllAudio_gen_fault)
  have test: "testOsc (stopAllAudio fg ft s) = None \<and> testGain (stopAllAudio fg ft s) = None"
    if "testRunning s" "ft \<noteq> NoFault"
    using assms that by (simp add: stopAllAudio_test_fault)
  have button: "stopGenerator fg s =
                s\<lparr>genRunning := False, genOsc := None, genGain := None, genLPF := None,
                  calls := calls s @ take (completed fg)
                    [CancelScheduledValues (Gain ggain) (currentTime s),
                     SetValueAtTime (Gain ggain) (reading s ggain (currentTime s))
                       (currentTime s),
                     LinearRampToValueAtTime (Gain ggain) 0 (currentTime s + 0.06),
                     Stop gosc (currentTime s + 0.07)],
                  active_audio := False\<rparr>" if "genRunning s" "fg \<noteq> NoFault"
    using assms that by (simp add: stopGenerator_fault)
  show ?thesis
    using flags gen test button by (intro conjI impI; simp)
qed

lemma soft_stop_failure_forces_idle_witness:
  "audioContext generating = Some AudioContext \<and> genRunning generating
   \<and> genOsc generating = Some 0 \<and> genGain generating = Some 1 \<and> AtRamp \<noteq> NoFault
   \<and> \<not> genRunning (stopAllAudio AtRamp NoFault generating)
   \<and> \<not> active_audio (stopAllAudio AtRamp NoFault generating)
   \<and> genOsc (stopAllAudio AtRamp NoFault generating) = None
   \<and> genOsc (stopGenerator AtRamp generating) = None
   \<and> \<not> genRunning (stopGenerator AtRamp generating)
   \<and> audioContext testing = Some AudioContext \<and> testRunning testing
   \<and> testOsc testing = Some 0 \<and> testGain testing = Some 1 \<and> AtStop \<noteq> NoFault
   \<and> \<not> testRunning (stopAllAudio NoFault AtStop testing)
   \<and> testOsc (stopAllAudio NoFault AtStop testing) = None"
proof -
  have g: "genRunning generating \<longrightarrow> genOsc generating = Some 0 \<and> genGain generating = Some 1"
    and g': "testRunning generating \<longrightarrow> testOsc generating = Some 0 \<and> testGain generating = Some 0"
    by (simp_all add: generating_fields)
  have t: "genRunning testing \<longrightarrow> genOsc testing = Some 0 \<and> genGain testing = Some 0"
    and t': "testRunning testing \<longrightarrow> testOsc testing = Some 0 \<and> testGain testing = Some 1"
    by (simp_all add: testing_fields)
  have f: "AtRamp \<noteq> NoFault" "AtStop \<noteq> NoFault"
    by simp_all
  from soft_stop_failure_forces_idle [OF generating_fields(3) g g', of AtRamp NoFault]
    soft_stop_failure_forces_idle [OF testing_fields(3) t t', of NoFault AtStop]
    generating_fields testing_fields f
  show ?thesis
    by simp
qed

text \<open>
  The \<open>active-audio\<close> class is never set while both running flags are off: every
  statement that clears a flag is followed by the removal of the class.
\<close>

lemma stopAllAudio_indicator:
  assumes "active_audio s \<longrightarrow> genRunning s \<or> testRunning s"
  shows "active_audio (stopAllAudio fg ft s) \<longrightarrow>
         genRunning (stopAllAudio fg ft s) \<or> testRunning (stopAllAudio fg ft s)"
proof (cases "audioContext s")
  case None
  with assms show ?thesis
    by (simp add: stopAllAudio_def)
next
  case (Some c)
  then have "\<not> active_audio (stopAllAudio fg ft s)"
    by (simp add: stopAllAudio_def Let_def)
  then show ?thesis
    by simp
qed

lemma stopGenerator_indicator:
  assumes "active_audio s \<longrightarrow> genRunning s \<or> testRunning s"
  shows "active_audio (stopGenerator f s) \<longrightarrow>
         genRunning (stopGenerator f s) \<or> testRunning (stopGenerator f s)"
  using assms by (auto simp: stopGenerator_def split: option.splits)

lemma setHz_indicator:
  assumes "active_audio s \<longrightarrow> genRunning s \<or> testRunning s"
  shows "active_audio (setHz v s) \<longrightarrow> genRunning (setHz v s) \<or> testRunning (setHz v s)"
  using assms by (auto simp: setHz_def perform_def Let_def split: option.splits)

lemma ensureContext_fields:
  "genRunning (page (ensureContext s)) = genRunning s"
  "testRunning (page (ensureContext s)) = testRunning s"
  "active_audio (page (ensureContext s)) = active_audio s"
  by (simp_all add: ensureContext_def perform_def split: option.splits)

lemma startGenerator_indicator:
  assumes "active_audio s \<longrightarrow> genRunning s \<or> testRunning s"
  shows "active_audio (page (startGenerator fg ft s)) \<longrightarrow>
         genRunning (page (startGenerator fg ft s)) \<or> testRunning (page (startGenerator fg ft s))"
proof (cases "genRunning s")
  case True
  then show ?thesis
    by (simp add: startGenerator_def)
next
  case False
  define s1 where "s1 = (if testRunning s then stopAllAudio fg ft s else s)"
  have inv1: "active_audio s1 \<longrightarrow> genRunning s1 \<or> testRunning s1"
    using assms stopAllAudio_indicator [OF assms, of fg ft] by (auto simp: s1_def)
  show ?thesis
  proof (cases "ensureContext s1")
    case (Returns s2)
    with False show ?thesis
      by (simp add: startGenerator_def s1_def [symmetric] Let_def perform_def)
  next
    case (Throws e s')
    then have "s' = s1"
      by (simp add: ensureContext_def split: option.splits if_splits)
    with False Throws inv1 show ?thesis
      by (simp add: startGenerator_def s1_def [symmetric] Let_def)
  qed
qed

lemma playTestTone_indicator:
  assumes "active_audio s \<longrightarrow> genRunning s \<or> testRunning s"
  shows "active_audio (page (playTestTone f s)) \<longrightarrow>
         genRunning (page (playTestTone f s)) \<or> testRunning (page (playTestTone f s))"
proof (cases "testRunning s")
  case True
  with assms show ?thesis
    by (simp add: playTestTone_def)
next
  case False
  define s1 where "s1 = (if genRunning s then stopGenerator f s else s)"
  have inv1: "active_audio s1 \<longrightarrow> genRunning s1 \<or> testRunning s1"
    using assms stopGenerator_indicator [OF assms, of f] by (auto simp: s1_def)
  show ?thesis
  proof (cases "ensureContext s1")
    case (Returns s2)
    with False show ?thesis
      by (simp add: playTestTone_def s1_def [symmetric] Let_def perform_def)
  next
    case (Throws e s')
    then have "s' = s1"
      by (simp add: ensureContext_def split: option.splits if_splits)
    with False Throws inv1 show ?thesis
      by (simp add: playTestTone_def s1_def [symmetric] Let_def)
  qed
qed

lemma oscEnded_indicator:
  assumes "active_audio s \<longrightarrow> genRunning s \<or> testRunning s"
  shows "active_audio (oscEnded n s) \<longrightarrow> genRunning (oscEnded n s) \<or> testRunning (oscEnded n s)"
proof (cases "onended_of (calls s) n")
  case None
  with assms show ?thesis
    by (simp add: oscEnded_def Let_def)
next
  case (Some h)
  with assms show ?thesis
    by (cases h) (simp_all add: oscEnded_def Let_def)
qed

lemma step_indicator:
  assumes "active_audio s \<longrightarrow> genRunning s \<or> testRunning s" and "step e s = Some s'"
  shows "active_audio s' \<longrightarrow> genRunning s' \<or> testRunning s'"
proof (cases e)
  case (ClickStart fg ft)
  with assms(2) startGenerator_indicator [OF assms(1), of fg ft] show ?thesis by auto
next
  case (ClickStop f)
  with assms(2) stopGenerator_indicator [OF assms(1), of f] show ?thesis by auto
next
  case (ClickTest f)
  with assms(2) playTestTone_indicator [OF assms(1), of f] show ?thesis by auto
next
  case (ClickWarn fg ft)
  with assms(2) stopAllAudio_indicator [OF assms(1), of fg ft] show ?thesis by auto
next
  case (Knob v)
  with assms(2) setHz_indicator [OF assms(1), of v] show ?thesis by auto
next
  case (Elapse d)
  with assms show ?thesis by (auto split: if_splits)
next
  case (Ended n)
  with assms(2) oscEnded_indicator [OF assms(1), of n] show ?thesis by (auto split: if_splits)
qed

lemma run_indicator:
  assumes "active_audio s \<longrightarrow> genRunning s \<or> testRunning s" and "run es s = Some s'"
  shows "active_audio s' \<longrightarrow> genRunning s' \<or> testRunning s'"
  using assms
proof (induction es arbitrary: s)
  case Nil
  then show ?case by simp
next
  case (Cons e es)
  from Cons.prems(2) obtain s1 where s1: "step e s = Some s1" and rest: "run es s1 = Some s'"
    by (auto split: option.splits)
  from step_indicator [OF Cons.prems(1) s1] have "active_audio s1 \<longrightarrow> genRunning s1 \<or> testRunning s1" .
  from Cons.IH [OF this rest] show ?case .
qed

lemma loaded_indicator: "\<not> active_audio (loaded cap rd)"
  by (simp add: loaded_def setHz_def Let_def)

lemma stopAllAudio_idle:
  assumes "\<not> genRunning s" and "\<not> testRunning s"
  shows "(stopAllAudio fg ft s)\<lparr>active_audio := active_audio s\<rparr> = s"
  using assms by (simp add: stopAllAudio_def Let_def split: option.splits)

text \<open>
  Claim C8. In every state the page can reach in which neither source is running, a panic
  stop returns the state it was given, whatever the host would do on a soft stop: no flag,
  node reference, stored frequency or host call changes, and a second panic stop changes
  nothing either. This holds in the state right after loading, where no context exists. For
  an arbitrary state with both flags off the only field the call can touch is the
  \<open>active-audio\<close> class, which it clears, and without a context it returns at once.
\<close>

theorem panic_when_idle_changes_nothing:
  assumes "run es (loaded cap rd) = Some s" and "\<not> genRunning s" and "\<not> testRunning s"
  shows "stopAllAudio fg ft s = s
         \<and> step (ClickWarn fg ft) s = Some s
         \<and> stopAllAudio fg' ft' (stopAllAudio fg ft s) = stopAllAudio fg ft s
         \<and> stopAllAudio fg ft (loaded cap rd) = loaded cap rd
         \<and> (\<not> genRunning t \<and> \<not> testRunning t \<longrightarrow>
              (stopAllAudio fg ft t)\<lparr>active_audio := active_audio t\<rparr> = t)
         \<and> (audioContext t = None \<longrightarrow> stopAllAudio fg ft t = t)"
proof -
  have idle: "stopAllAudio a b u = u" if "\<not> genRunning u" "\<not> testRunning u" "\<not> active_audio u" for a b u
    using that by (simp add: stopAllAudio_def Let_def split: option.splits)
  have "active_audio s \<longrightarrow> genRunning s \<or> testRunning s"
    using run_indicator [OF _ assms(1)] loaded_indicator by simp
  with assms have off: "\<not> active_audio s"
    by simp
  have same: "stopAllAudio a b s = s" for a b
    using idle assms(2,3) off by simp
  have start: "stopAllAudio fg ft (loaded cap rd) = loaded cap rd"
    by (simp add: stopAllAudio_def loaded_def setHz_def Let_def)
  have none: "stopAllAudio fg ft t = t" if "audioContext t = None"
    using that by (simp add: stopAllAudio_def)
  show ?thesis
    using same start none stopAllAudio_idle [of t fg ft] by simp
qed

theorem panic_when_idle_changes_nothing_witness:
  "run [ClickStart NoFault NoFault, ClickStop NoFault] (loaded True (\<lambda>g t. 1 / 4))
     = Some (stopGenerator NoFault generating)
   \<and> \<not> genRunning (stopGenerator NoFault generating)
   \<and> \<not> testRunning (stopGenerator NoFault generating)
   \<and> genOsc (stopGenerator NoFault generating) = Some 0
   \<and> stopAllAudio NoFault NoFault (stopGenerator NoFault generating)
       = stopGenerator NoFault generating"
proof -
  have r: "run [ClickStart NoFault NoFault, ClickStop NoFault] (loaded True (\<lambda>g t. 1 / 4))
     = Some (stopGenerator NoFault generating)"
    by (simp add: generating_def)
  have i: "\<not> genRunning (stopGenerator NoFault generating)"
    "\<not> testRunning (stopGenerator NoFault generating)"
    "genOsc (stopGenerator NoFault generating) = Some 0"
    using generating_fields by (simp_all add: stopGenerator_def softStopNode_NoFault)
  from panic_when_idle_changes_nothing [OF r i(1,2), of NoFault NoFault] r i
  show ?thesis
    by simp
qed

text \<open>
  Claim C6. With neither source running and a context present or obtainable,
  \<open>playTestTone\<close> returns normally and has made exactly these host calls: a sine
  oscillator set to 3030 Hz, connected through a new gain node to the destination and
  started; the gain set to 0 now, ramped to 0.20 at 80 ms, held at 0.20 until 8.8 s and
  ramped to 0 at 9 s; the oscillator told to stop at 9 s; and the handler of its end
  registered. The test tone is then the running source. When the host notifies the end of
  that oscillator, with no stop call from the page, the running flag and the
  \<open>active-audio\<close> class are cleared and the references are dropped.
\<close>

theorem play_test_tone_from_idle:
  assumes "\<not> genRunning s" and "\<not> testRunning s" and "audioContext s \<noteq> None \<or> capable s"
  shows "\<exists>s'. playTestTone f s = Returns s'
           \<and> testRunning s' \<and> \<not> genRunning s' \<and> active_audio s'
           \<and> testOsc s' = Some (allocated s) \<and> testGain s' = Some (allocated s + 1)
           \<and> calls s' = calls s
                @ (if audioContext s = None then [NewAudioContext] else [])
                @ [CreateOscillator (allocated s), CreateGain (allocated s + 1),
                   SetType (allocated s) ''sine'',
                   SetValue (Frequency (allocated s)) 3030,
                   SetValueAtTime (Gain (allocated s + 1)) 0 (currentTime s),
                   Connect (allocated s) (Node (allocated s + 1)),
                   Connect (allocated s + 1) Destination,
                   Start (allocated s),
                   LinearRampToValueAtTime (Gain (allocated s + 1)) 0.20 (currentTime s + 0.08),
                   SetValueAtTime (Gain (allocated s + 1)) 0.20 (currentTime s + 8.8),
                   LinearRampToValueAtTime (Gain (allocated s + 1)) 0 (currentTime s + 9),
                   Stop (allocated s) (currentTime s + 9),
                   SetOnEnded (allocated s) TestToneEnded]
           \<and> stop_time (calls s') (allocated s) = Some (currentTime s + 9)
           \<and> onended_of (calls s') (allocated s) = Some TestToneEnded
           \<and> \<not> testRunning (oscEnded (allocated s) s')
           \<and> \<not> genRunning (oscEnded (allocated s) s')
           \<and> testOsc (oscEnded (allocated s) s') = None
           \<and> testGain (oscEnded (allocated s) s') = None
           \<and> \<not> active_audio (oscEnded (allocated s) s')"
proof -
  let ?o = "allocated s" and ?now = "currentTime s"
  let ?tone = "[CreateOscillator ?o, CreateGain (?o + 1),
                   SetType ?o ''sine'',
                   SetValue (Frequency ?o) 3030,
                   SetValueAtTime (Gain (?o + 1)) 0 ?now,
                   Connect ?o (Node (?o + 1)),
                   Connect (?o + 1) Destination,
                   Start ?o,
                   LinearRampToValueAtTime (Gain (?o + 1)) 0.20 (?now + 0.08),
                   SetValueAtTime (Gain (?o + 1)) 0.20 (?now + 8.8),
                   LinearRampToValueAtTime (Gain (?o + 1)) 0 (?now + 9),
                   Stop ?o (?now + 9),
                   SetOnEnded ?o TestToneEnded]"
  let ?pre = "if audioContext s = None then [NewAudioContext] else []"
  define s' where "s' = s\<lparr>audioContext := Some AudioContext, testOsc := Some ?o,
      testGain := Some (?o + 1), allocated := ?o + 2, calls := calls s @ ?pre @ ?tone,
      testRunning := True, active_audio := True\<rparr>"
  have ret: "playTestTone f s = Returns s'"
  proof (cases "audioContext s")
    case None
    with assms show ?thesis
      by (simp add: playTestTone_def ensureContext_def perform_def Let_def s'_def)
  next
    case (Some c)
    then have "c = AudioContext" by (cases c) simp
    with Some assms show ?thesis
      by (simp add: playTestTone_def ensureContext_def perform_def Let_def s'_def)
  qed
  have log: "calls s' = calls s @ ?pre @ ?tone"
    by (simp add: s'_def)
  have halt: "stop_time (calls s') ?o = Some (?now + 9)"
    unfolding log by (simp only: stop_time_append append_assoc [symmetric]) simp
  have handler: "onended_of (calls s') ?o = Some TestToneEnded"
    unfolding log by (simp only: onended_of_append append_assoc [symmetric]) simp
  have notified: "oscEnded ?o s' = run_handler TestToneEnded (s'\<lparr>ended := ?o # ended s'\<rparr>)"
    by (simp add: oscEnded_def handler Let_def)
  have after: "\<not> testRunning (oscEnded ?o s')" "\<not> genRunning (oscEnded ?o s')"
      "testOsc (oscEnded ?o s') = None" "testGain (oscEnded ?o s') = None"
      "\<not> active_audio (oscEnded ?o s')"
    using assms by (simp_all add: notified) (simp add: s'_def)
  have now: "testRunning s'" "\<not> genRunning s'" "active_audio s'"
      "testOsc s' = Some ?o" "testGain s' = Some (?o + 1)"
    using assms by (simp_all add: s'_def)
  from ret now log halt handler after show ?thesis
    by blast
qed

theorem play_test_tone_from_idle_witness:
  "\<not> genRunning (loaded True (\<lambda>g t. 1 / 5)) \<and> \<not> testRunning (loaded True (\<lambda>g t. 1 / 5))
   \<and> capable (loaded True (\<lambda>g t. 1 / 5))
   \<and> allocated (loaded True (\<lambda>g t. 1 / 5)) = 0
   \<and> playTestTone NoFault (loaded True (\<lambda>g t. 1 / 5)) = Returns testing
   \<and> testRunning testing \<and> testOsc testing = Some 0
   \<and> stop_time (calls testing) 0 = Some 9
   \<and> \<not> testRunning (oscEnded 0 testing) \<and> testOsc (oscEnded 0 testing) = None
   \<and> map_option (\<lambda>s. (genRunning s, testRunning s, testOsc s, testGain s, active_audio s))
        (run [ClickTest NoFault, Elapse 9, Ended 0] (loaded True (\<lambda>g t. 1 / 5)))
       = Some (False, False, None, None, False)"
proof -
  let ?L = "loaded True (\<lambda>g t. 1 / 5)"
  have idle: "\<not> genRunning ?L" "\<not> testRunning ?L"
    and cap: "audioContext ?L \<noteq> None \<or> capable ?L"
    and fresh: "allocated ?L = 0" "currentTime ?L = 0" "capable ?L"
    by (simp_all add: loaded_def setHz_def Let_def)
  from play_test_tone_from_idle [OF idle cap, of NoFault] obtain s' where
    ret: "playTestTone NoFault ?L = Returns s'" and
    on: "testRunning s'" "testOsc s' = Some (allocated ?L)" and
    halt: "stop_time (calls s') (allocated ?L) = Some (currentTime ?L + 9)" and
    off: "\<not> testRunning (oscEnded (allocated ?L) s')" "testOsc (oscEnded (allocated ?L) s') = None"
    by blast
  have s': "s' = testing"
    by (simp add: testing_def ret)
  have scenario: "map_option (\<lambda>s. (genRunning s, testRunning s, testOsc s, testGain s, active_audio s))
        (run [ClickTest NoFault, Elapse 9, Ended 0] ?L) = Some (False, False, None, None, False)"
    by (simp add: script_defs due_def oscEnded_def)
  from idle fresh ret on halt off scenario show ?thesis
    by (simp add: s')
qed

lemma softStopNode_host_fields:
  "allocated (softStopNode f osc gain h s) = allocated s"
  "currentTime (softStopNode f osc gain h s) = currentTime s"
  "audioContext (softStopNode f osc gain h s) = audioContext s"
  "currentHz (softStopNode f osc gain h s) = currentHz s"
  by (cases h; simp add: softStopNode_def perform_def Let_def)+

lemma stopAllAudio_host_fields:
  "allocated (stopAllAudio fg ft s) = allocated s"
  "currentTime (stopAllAudio fg ft s) = currentTime s"
  "audioContext (stopAllAudio fg ft s) = audioContext s"
  "currentHz (stopAllAudio fg ft s) = currentHz s"
  by (simp_all add: stopAllAudio_def Let_def softStopNode_host_fields split: option.splits)

lemma stopGenerator_host_fields:
  "allocated (stopGenerator f s) = allocated s"
  "currentTime (stopGenerator f s) = currentTime s"
  "audioContext (stopGenerator f s) = audioContext s"
  "currentHz (stopGenerator f s) = currentHz s"
  "testRunning (stopGenerator f s) = testRunning s"
  by (simp_all add: stopGenerator_def softStopNode_host_fields softStopNode_release_fields
      split: option.splits)

lemma stopAllAudio_test_log:
  assumes "testRunning s" and "\<not> genRunning s" and "audioContext s = Some c"
    and "testOsc s = Some tosc" and "testGain s = Some tgain"
  shows "calls (stopAllAudio fg ft s) = calls s @
           take (completed ft)
             [CancelScheduledValues (Gain tgain) (currentTime s),
              SetValueAtTime (Gain tgain) (reading s tgain (currentTime s)) (currentTime s),
              LinearRampToValueAtTime (Gain tgain) 0 (currentTime s + 0.06),
              Stop tosc (currentTime s + 0.07)]
           @ (if ft = NoFault then [SetOnEnded tosc ReleaseTestTone] else [])"
    and "ft \<noteq> NoFault \<Longrightarrow> testOsc (stopAllAudio fg ft s) = None \<and> testGain (stopAllAudio fg ft s) = None"
    and "ft = NoFault \<Longrightarrow> testOsc (stopAllAudio fg ft s) = Some tosc \<and> testGain (stopAllAudio fg ft s) = Some tgain"
  using assms
  by (auto simp: stopAllAudio_def Let_def softStopNode_def perform_def split: option.splits)

lemma stopGenerator_log:
  assumes "genRunning s" and "audioContext s = Some c"
    and "genOsc s = Some gosc" and "genGain s = Some ggain"
  shows "calls (stopGenerator f s) = calls s @
           take (completed f)
             [CancelScheduledValues (Gain ggain) (currentTime s),
              SetValueAtTime (Gain ggain) (reading s ggain (currentTime s)) (currentTime s),
              LinearRampToValueAtTime (Gain ggain) 0 (currentTime s + 0.06),
              Stop gosc (currentTime s + 0.07)]
           @ (if f = NoFault then [SetOnEnded gosc ReleaseGenerator] else [])"
    and "\<not> genRunning (stopGenerator f s)"
  using assms
  by (auto simp: stopGenerator_def Let_def softStopNode_def perform_def split: option.splits)

lemma startGenerator_after_stop:
  assumes "testRunning s" and "\<not> genRunning s" and "audioContext s = Some c"
    and "testOsc s = Some tosc" and "testGain s = Some tgain"
  shows "\<exists>s'. startGenerator fg ft s = Returns s' \<and> genRunning s' \<and> \<not> testRunning s'
           \<and> genOsc s' = Some (allocated s)
           \<and> calls s' = calls (stopAllAudio fg ft s) @
               [CreateOscillator (allocated s), CreateGain (allocated s + 1),
                CreateBiquadFilter (allocated s + 2),
                SetType (allocated s) ''sine'',
                SetValue (Frequency (allocated s)) (of_int (currentHz s)),
                SetType (allocated s + 2) ''lowpass'',
                SetValue (Frequency (allocated s + 2)) 120,
                SetValue (Q (allocated s + 2)) 0.707,
                SetValueAtTime (Gain (allocated s + 1)) 0 (currentTime s),
                Connect (allocated s) (Node (allocated s + 2)),
                Connect (allocated s + 2) (Node (allocated s + 1)),
                Connect (allocated s + 1) Destination,
                Start (allocated s),
                LinearRampToValueAtTime (Gain (allocated s + 1)) 0.25 (currentTime s + 0.08)]"
proof -
  let ?s1 = "stopAllAudio fg ft s"
  have off: "\<not> testRunning ?s1" "\<not> genRunning ?s1"
    using assms by (simp_all add: stopAllAudio_flags)
  have ctx: "ensureContext ?s1 = Returns ?s1"
    using assms(3) by (simp add: ensureContext_def stopAllAudio_host_fields)
  show ?thesis
    using assms(1,2) off
    by (simp add: startGenerator_def ctx Let_def perform_def stopAllAudio_host_fields)
qed

lemma playTestTone_after_stop:
  assumes "genRunning s" and "\<not> testRunning s" and "audioContext s = Some c"
    and "genOsc s = Some gosc" and "genGain s = Some ggain"
  shows "\<exists>s'. playTestTone f s = Returns s' \<and> testRunning s' \<and> \<not> genRunning s'
           \<and> testOsc s' = Some (allocated s)
           \<and> calls s' = calls (stopGenerator f s) @
               [CreateOscillator (allocated s), CreateGain (allocated s + 1),
                SetType (allocated s) ''sine'',
                SetValue (Frequency (allocated s)) 3030,
                SetValueAtTime (Gain (allocated s + 1)) 0 (currentTime s),
                Connect (allocated s) (Node (allocated s + 1)),
                Connect (allocated s + 1) Destination,
                Start (allocated s),
                LinearRampToValueAtTime (Gain (allocated s + 1)) 0.20 (currentTime s + 0.08),
                SetValueAtTime (Gain (allocated s + 1)) 0.20 (currentTime s + 8.8),
                LinearRampToValueAtTime (Gain (allocated s + 1)) 0 (currentTime s + 9),
                Stop (allocated s) (currentTime s + 9),
                SetOnEnded (allocated s) TestToneEnded]"
proof -
  let ?s1 = "stopGenerator f s"
  have off: "\<not> genRunning ?s1" "\<not> testRunning ?s1"
    using assms stopGenerator_log(2) [OF assms(1,3,4,5)] by (simp_all add: stopGenerator_host_fields)
  have ctx: "ensureContext ?s1 = Returns ?s1"
    using assms(3) by (simp add: ensureContext_def stopGenerator_host_fields)
  show ?thesis
    using assms(1,2) off
    by (simp add: playTestTone_def ctx Let_def perform_def stopGenerator_host_fields)
qed

text \<open>
  Starting one source while the other holds its nodes. Starting the generator while the
  test tone is the running source and holds its nodes returns normally; the host calls it adds are first those of the test tone's soft
  stop (all of them, with the release function registered, when the host accepts them, and
  those before the throw otherwise) and only then the creation, wiring and start of the
  generator's nodes. Afterwards the generator is running and the test tone is not. The
  same holds for the test tone started while the generator is the running source.
\<close>

lemma start_follows_stop_request:
  "(testRunning s \<and> \<not> genRunning s \<and> audioContext s = Some c
      \<and> testOsc s = Some tosc \<and> testGain s = Some tgain \<longrightarrow>
     (\<exists>s'. startGenerator fg ft s = Returns s' \<and> genRunning s' \<and> \<not> testRunning s'
        \<and> calls s' = calls s
             @ take (completed ft)
                 [CancelScheduledValues (Gain tgain) (currentTime s),
                  SetValueAtTime (Gain tgain) (reading s tgain (currentTime s)) (currentTime s),
                  LinearRampToValueAtTime (Gain tgain) 0 (currentTime s + 0.06),
                  Stop tosc (currentTime s + 0.07)]
             @ (if ft = NoFault then [SetOnEnded tosc ReleaseTestTone] else [])
             @ [CreateOscillator (allocated s), CreateGain (allocated s + 1),
                CreateBiquadFilter (allocated s + 2),
                SetType (allocated s) ''sine'',
                SetValue (Frequency (allocated s)) (of_int (currentHz s)),
                SetType (allocated s + 2) ''lowpass'',
                SetValue (Frequency (allocated s + 2)) 120,
                SetValue (Q (allocated s + 2)) 0.707,
                SetValueAtTime (Gain (allocated s + 1)) 0 (currentTime s),
                Connect (allocated s) (Node (allocated s + 2)),
                Connect (allocated s + 2) (Node (allocated s + 1)),
                Connect (allocated s + 1) Destination,
                Start (allocated s),
                LinearRampToValueAtTime (Gain (allocated s + 1)) 0.25 (currentTime s + 0.08)]))
   \<and> (genRunning s \<and> \<not> testRunning s \<and> audioContext s = Some c
      \<and> genOsc s = Some gosc \<and> genGain s = Some ggain \<longrightarrow>
     (\<exists>s'. playTestTone f s = Returns s' \<and> testRunning s' \<and> \<not> genRunning s'
        \<and> calls s' = calls s
             @ take (completed f)
                 [CancelScheduledValues (Gain ggain) (currentTime s),
                  SetValueAtTime (Gain ggain) (reading s ggain (currentTime s)) (currentTime s),
                  LinearRampToValueAtTime (Gain ggain) 0 (currentTime s + 0.06),
                  Stop gosc (currentTime s + 0.07)]
             @ (if f = NoFault then [SetOnEnded gosc ReleaseGenerator] else [])
             @ [CreateOscillator (allocated s), CreateGain (allocated s + 1),
                SetType (allocated s) ''sine'',
                SetValue (Frequency (allocated s)) 3030,
                SetValueAtTime (Gain (allocated s + 1)) 0 (currentTime s),
                Connect (allocated s) (Node (allocated s + 1)),
                Connect (allocated s + 1) Destination,
                Start (allocated s),
                LinearRampToValueAtTime (Gain (allocated s + 1)) 0.20 (currentTime s + 0.08),
                SetValueAtTime (Gain (allocated s + 1)) 0.20 (currentTime s + 8.8),
                LinearRampToValueAtTime (Gain (allocated s + 1)) 0 (currentTime s + 9),
                Stop (allocated s) (currentTime s + 9),
                SetOnEnded (allocated s) TestToneEnded]))"
proof (intro conjI impI)
  assume a: "testRunning s \<and> \<not> genRunning s \<and> audioContext s = Some c
      \<and> testOsc s = Some tosc \<and> testGain s = Some tgain"
  then have h: "testRunning s" "\<not> genRunning s" "audioContext s = Some c"
    "testOsc s = Some tosc" "testGain s = Some tgain"
    by simp_all
  from startGenerator_after_stop [OF h, of fg ft] obtain s' where
    s': "startGenerator fg ft s = Returns s'" "genRunning s'" "\<not> testRunning s'" and
    log: "calls s' = calls (stopAllAudio fg ft s) @
               [CreateOscillator (allocated s), CreateGain (allocated s + 1),
                CreateBiquadFilter (allocated s + 2),
                SetType (allocated s) ''sine'',
                SetValue (Frequency (allocated s)) (of_int (currentHz s)),
                SetType (allocated s + 2) ''lowpass'',
                SetValue (Frequency (allocated s + 2)) 120,
                SetValue (Q (allocated s + 2)) 0.707,
                SetValueAtTime (Gain (allocated s + 1)) 0 (currentTime s),
                Connect (allocated s) (Node (allocated s + 2)),
                Connect (allocated s + 2) (Node (allocated s + 1)),
                Connect (allocated s + 1) Destination,
                Start (allocated s),
                LinearRampToValueAtTime (Gain (allocated s + 1)) 0.25 (currentTime s + 0.08)]"
    by blast
  show "\<exists>s'. startGenerator fg ft s = Returns s' \<and> genRunning s' \<and> \<not> testRunning s'
        \<and> calls s' = calls s
             @ take (completed ft)
                 [CancelScheduledValues (Gain tgain) (currentTime s),
                  SetValueAtTime (Gain tgain) (reading s tgain (currentTime s)) (currentTime s),
                  LinearRampToValueAtTime (Gain tgain) 0 (currentTime s + 0.06),
                  Stop tosc (currentTime s + 0.07)]
             @ (if ft = NoFault then [SetOnEnded tosc ReleaseTestTone] else [])
             @ [CreateOscillator (allocated s), CreateGain (allocated s + 1),
                CreateBiquadFilter (allocated s + 2),
                SetType (allocated s) ''sine'',
                SetValue (Frequency (allocated s)) (of_int (currentHz s)),
                SetType (allocated s + 2) ''lowpass'',
                SetValue (Frequency (allocated s + 2)) 120,
                SetValue (Q (allocated s + 2)) 0.707,
                SetValueAtTime (Gain (allocated s + 1)) 0 (currentTime s),
                Connect (allocated s) (Node (allocated s + 2)),
                Connect (allocated s + 2) (Node (allocated s + 1)),
                Connect (allocated s + 1) Destination,
                Start (allocated s),
                LinearRampToValueAtTime (Gain (allocated s + 1)) 0.25 (currentTime s + 0.08)]"
    using s' log stopAllAudio_test_log(1) [OF h, of fg ft] by simp
next
  assume a: "genRunning s \<and> \<not> testRunning s \<and> audioContext s = Some c
      \<and> genOsc s = Some gosc \<and> genGain s = Some ggain"
  then have h: "genRunning s" "\<not> testRunning s" "audioContext s = Some c"
    "genOsc s = Some gosc" "genGain s = Some ggain"
    by simp_all
  from playTestTone_after_stop [OF h, of f] obtain s' where
    s': "playTestTone f s = Returns s'" "testRunning s'" "\<not> genRunning s'" and
    log: "calls s' = calls (stopGenerator f s) @
               [CreateOscillator (allocated s), CreateGain (allocated s + 1),
                SetType (allocated s) ''sine'',
                SetValue (Frequency (allocated s)) 3030,
                SetValueAtTime (Gain (allocated s + 1)) 0 (currentTime s),
                Connect (allocated s) (Node (allocated s + 1)),
                Connect (allocated s + 1) Destination,
                Start (allocated s),
                LinearRampToValueAtTime (Gain (allocated s + 1)) 0.20 (currentTime s + 0.08),
                SetValueAtTime (Gain (allocated s + 1)) 0.20 (currentTime s + 8.8),
                LinearRampToValueAtTime (Gain (allocated s + 1)) 0 (currentTime s + 9),
                Stop (allocated s) (currentTime s + 9),
                SetOnEnded (allocated s) TestToneEnded]"
    by blast
  show "\<exists>s'. playTestTone f s = Returns s' \<and> testRunning s' \<and> \<not> genRunning s'
        \<and> calls s' = calls s
             @ take (completed f)
                 [CancelScheduledValues (Gain ggain) (currentTime s),
                  SetValueAtTime (Gain ggain) (reading s ggain (currentTime s)) (currentTime s),
                  LinearRampToValueAtTime (Gain ggain) 0 (currentTime s + 0.06),
                  Stop gosc (currentTime s + 0.07)]
             @ (if f = NoFault then [SetOnEnded gosc ReleaseGenerator] else [])
             @ [CreateOscillator (allocated s), CreateGain (allocated s + 1),
                SetType (allocated s) ''sine'',
                SetValue (Frequency (allocated s)) 3030,
                SetValueAtTime (Gain (allocated s + 1)) 0 (currentTime s),
                Connect (allocated s) (Node (allocated s + 1)),
                Connect (allocated s + 1) Destination,
                Start (allocated s),
                LinearRampToValueAtTime (Gain (allocated s + 1)) 0.20 (currentTime s + 0.08),
                SetValueAtTime (Gain (allocated s + 1)) 0.20 (currentTime s + 8.8),
                LinearRampToValueAtTime (Gain (allocated s + 1)) 0 (currentTime s + 9),
                Stop (allocated s) (currentTime s + 9),
                SetOnEnded (allocated s) TestToneEnded]"
    using s' log stopGenerator_log(1) [OF h(1,3,4,5), of f] by simp
qed

lemma start_follows_stop_request_witness:
  "testRunning testing \<and> \<not> genRunning testing \<and> audioContext testing = Some AudioContext
   \<and> testOsc testing = Some 0 \<and> testGain testing = Some 1
   \<and> (\<exists>s'. startGenerator NoFault NoFault testing = Returns s'
          \<and> genRunning s' \<and> \<not> testRunning s')
   \<and> genRunning generating \<and> \<not> testRunning generating
   \<and> audioContext generating = Some AudioContext
   \<and> genOsc generating = Some 0 \<and> genGain generating = Some 1
   \<and> (\<exists>s'. playTestTone NoFault generating = Returns s'
          \<and> testRunning s' \<and> \<not> genRunning s')"
proof -
  have t: "testRunning testing \<and> \<not> genRunning testing \<and> audioContext testing = Some AudioContext
      \<and> testOsc testing = Some 0 \<and> testGain testing = Some 1"
    by (simp add: testing_fields)
  have g: "genRunning generating \<and> \<not> testRunning generating
      \<and> audioContext generating = Some AudioContext
      \<and> genOsc generating = Some 0 \<and> genGain generating = Some 1"
    by (simp add: generating_fields)
  from start_follows_stop_request [of testing AudioContext 0 1 NoFault NoFault] t
  have a: "\<exists>s'. startGenerator NoFault NoFault testing = Returns s'
          \<and> genRunning s' \<and> \<not> testRunning s'"
    by blast
  from start_follows_stop_request [of generating AudioContext _ _ _ _ 0 1 NoFault] g
  have b: "\<exists>s'. playTestTone NoFault generating = Returns s'
          \<and> testRunning s' \<and> \<not> genRunning s'"
    by blast
  from t g a b show ?thesis
    by blast
qed

lemma setHz_running_log:
  assumes "genRunning s" and "audioContext s = Some c" and "genOsc s = Some osc"
  shows "calls (setHz v s) = calls s @
           [SetTargetAtTime (Frequency osc) (of_int (currentHz (setHz v s))) (currentTime s) 0.02]"
  using assms by (simp add: setHz_def Let_def perform_def)

lemma setHz_silent_log:
  assumes "\<not> genRunning s"
  shows "calls (setHz v s) = calls s"
  using assms by (simp add: setHz_def Let_def perform_def split: option.splits)

lemma startGenerator_from_idle:
  assumes "\<not> genRunning s" and "\<not> testRunning s" and "audioContext s \<noteq> None \<or> capable s"
  shows "startGenerator fg ft s = Returns
           (s\<lparr>audioContext := Some AudioContext,
              genOsc := Some (allocated s), genGain := Some (allocated s + 1),
              genLPF := Some (allocated s + 2), allocated := allocated s + 3,
              calls := calls s
                @ (if audioContext s = None then [NewAudioContext] else [])
                @ [CreateOscillator (allocated s), CreateGain (allocated s + 1),
                   CreateBiquadFilter (allocated s + 2),
                   SetType (allocated s) ''sine'',
                   SetValue (Frequency (allocated s)) (of_int (currentHz s)),
                   SetType (allocated s + 2) ''lowpass'',
                   SetValue (Frequency (allocated s + 2)) 120,
                   SetValue (Q (allocated s + 2)) 0.707,
                   SetValueAtTime (Gain (allocated s + 1)) 0 (currentTime s),
                   Connect (allocated s) (Node (allocated s + 2)),
                   Connect (allocated s + 2) (Node (allocated s + 1)),
                   Connect (allocated s + 1) Destination,
                   Start (allocated s),
                   LinearRampToValueAtTime (Gain (allocated s + 1)) 0.25 (currentTime s + 0.08)],
              genRunning := True, active_audio := True\<rparr>)"
proof (cases "audioContext s")
  case None
  with assms show ?thesis
    by (simp add: startGenerator_def ensureContext_def perform_def Let_def)
next
  case (Some c)
  then have "c = AudioContext" by (cases c) simp
  with Some assms show ?thesis
    by (simp add: startGenerator_def ensureContext_def perform_def Let_def)
qed

text \<open>
  The knob and a generator that holds its oscillator. While the generator is running and
  holds its oscillator, \<open>setHz\<close> makes one host call: \<open>setTargetAtTime\<close> on that oscillator's frequency, with the newly stored value
  as target, the present time as start and 0.02 s as time constant; it does not assign the
  frequency. While the generator is not running, \<open>setHz\<close> makes no host call. Started at
  30 Hz, the generator's oscillator is created with frequency 30, and \<open>setHz 45\<close> then
  stores 45 and asks the host to approach 45 from the present time.
\<close>

lemma setHz_retargets_running_generator:
  "(genRunning s \<and> audioContext s = Some c \<and> genOsc s = Some osc \<longrightarrow>
      calls (setHz v s) = calls s @
        [SetTargetAtTime (Frequency osc) (of_int (currentHz (setHz v s))) (currentTime s) 0.02])
   \<and> (\<not> genRunning s \<longrightarrow> calls (setHz v s) = calls s)
   \<and> (\<not> genRunning s \<and> \<not> testRunning s \<and> currentHz s = 30
        \<and> (audioContext s \<noteq> None \<or> capable s) \<longrightarrow>
      (\<exists>s'. startGenerator fg ft s = Returns s' \<and> genRunning s'
         \<and> genOsc s' = Some (allocated s)
         \<and> calls s' = calls s
              @ (if audioContext s = None then [NewAudioContext] else [])
              @ [CreateOscillator (allocated s), CreateGain (allocated s + 1),
                 CreateBiquadFilter (allocated s + 2),
                 SetType (allocated s) ''sine'',
                 SetValue (Frequency (allocated s)) 30,
                 SetType (allocated s + 2) ''lowpass'',
                 SetValue (Frequency (allocated s + 2)) 120,
                 SetValue (Q (allocated s + 2)) 0.707,
                 SetValueAtTime (Gain (allocated s + 1)) 0 (currentTime s),
                 Connect (allocated s) (Node (allocated s + 2)),
                 Connect (allocated s + 2) (Node (allocated s + 1)),
                 Connect (allocated s + 1) Destination,
                 Start (allocated s),
                 LinearRampToValueAtTime (Gain (allocated s + 1)) 0.25 (currentTime s + 0.08)]
         \<and> currentHz (setHz 45 s') = 45
         \<and> calls (setHz 45 s') = calls s' @
              [SetTargetAtTime (Frequency (allocated s)) 45 (currentTime s) 0.02]))"
proof (intro conjI impI)
  assume "genRunning s \<and> audioContext s = Some c \<and> genOsc s = Some osc"
  then show "calls (setHz v s) = calls s @
        [SetTargetAtTime (Frequency osc) (of_int (currentHz (setHz v s))) (currentTime s) 0.02]"
    by (simp add: setHz_running_log)
next
  assume "\<not> genRunning s"
  then show "calls (setHz v s) = calls s"
    by (rule setHz_silent_log)
next
  assume a: "\<not> genRunning s \<and> \<not> testRunning s \<and> currentHz s = 30
        \<and> (audioContext s \<noteq> None \<or> capable s)"
  then have idle: "\<not> genRunning s" "\<not> testRunning s" "audioContext s \<noteq> None \<or> capable s"
    and hz: "currentHz s = 30"
    by simp_all
  have stored: "currentHz (setHz 45 u) = 45" for u
    by (simp add: currentHz_setHz Math_round_def MIN_HZ_def MAX_HZ_def)
  show "\<exists>s'. startGenerator fg ft s = Returns s' \<and> genRunning s'
         \<and> genOsc s' = Some (allocated s)
         \<and> calls s' = calls s
              @ (if audioContext s = None then [NewAudioContext] else [])
              @ [CreateOscillator (allocated s), CreateGain (allocated s + 1),
                 CreateBiquadFilter (allocated s + 2),
                 SetType (allocated s) ''sine'',
                 SetValue (Frequency (allocated s)) 30,
                 SetType (allocated s + 2) ''lowpass'',
                 SetValue (Frequency (allocated s + 2)) 120,
                 SetValue (Q (allocated s + 2)) 0.707,
                 SetValueAtTime (Gain (allocated s + 1)) 0 (currentTime s),
                 Connect (allocated s) (Node (allocated s + 2)),
                 Connect (allocated s + 2) (Node (allocated s + 1)),
                 Connect (allocated s + 1) Destination,
                 Start (allocated s),
                 LinearRampToValueAtTime (Gain (allocated s + 1)) 0.25 (currentTime s + 0.08)]
         \<and> currentHz (setHz 45 s') = 45
         \<and> calls (setHz 45 s') = calls s' @
              [SetTargetAtTime (Frequency (allocated s)) 45 (currentTime s) 0.02]"
    by (simp add: startGenerator_from_idle [OF idle] hz stored
        setHz_running_log [where c = AudioContext and osc = "allocated s"])
qed

lemma setHz_retargets_running_generator_witness:
  "genRunning generating \<and> audioContext generating = Some AudioContext
   \<and> genOsc generating = Some 0
   \<and> calls (setHz 45 generating) = calls generating @
        [SetTargetAtTime (Frequency 0) 45 0 0.02]
   \<and> \<not> genRunning testing \<and> calls (setHz 45 testing) = calls testing
   \<and> \<not> genRunning (loaded True (\<lambda>g t. 1 / 4)) \<and> \<not> testRunning (loaded True (\<lambda>g t. 1 / 4))
   \<and> currentHz (loaded True (\<lambda>g t. 1 / 4)) = 30 \<and> capable (loaded True (\<lambda>g t. 1 / 4))
   \<and> (\<exists>s'. startGenerator NoFault NoFault (loaded True (\<lambda>g t. 1 / 4)) = Returns s'
         \<and> genRunning s' \<and> currentHz (setHz 45 s') = 45)"
proof -
  let ?L = "loaded True (\<lambda>g t. 1 / 4)"
  have g: "genRunning generating \<and> audioContext generating = Some AudioContext
      \<and> genOsc generating = Some 0"
    by (simp add: generating_fields)
  have stored: "currentHz (setHz 45 generating) = 45"
    by (simp add: currentHz_setHz Math_round_def MIN_HZ_def MAX_HZ_def)
  from setHz_retargets_running_generator [of generating AudioContext 0 45] g
  have a: "calls (setHz 45 generating) = calls generating @
      [SetTargetAtTime (Frequency 0) (of_int (currentHz (setHz 45 generating)))
         (currentTime generating) 0.02]"
    by blast
  have t: "\<not> genRunning testing"
    by (simp add: testing_fields)
  from setHz_retargets_running_generator [of testing _ _ 45] t
  have b: "calls (setHz 45 testing) = calls testing"
    by blast
  have l: "\<not> genRunning ?L" "\<not> testRunning ?L" "currentHz ?L = 30" "capable ?L"
    by (simp_all add: loaded_def setHz_def Math_round_def MIN_HZ_def MAX_HZ_def Let_def)
  then have l': "\<not> genRunning ?L \<and> \<not> testRunning ?L \<and> currentHz ?L = 30
        \<and> (audioContext ?L \<noteq> None \<or> capable ?L)"
    by simp
  from setHz_retargets_running_generator [of ?L _ _ _ NoFault NoFault] l'
  have c: "\<exists>s'. startGenerator NoFault NoFault ?L = Returns s'
         \<and> genRunning s' \<and> currentHz (setHz 45 s') = 45"
    by blast
  from g a b t l c show ?thesis
    by (simp add: stored generating_fields)
qed

lemma stopAllAudio_consistent:
  assumes "consistent s"
  shows "consistent (stopAllAudio fg ft s)"
proof (cases "audioContext s")
  case None
  then show ?thesis
    using assms by (simp add: stopAllAudio_def)
next
  case (Some c)
  have held: "genRunning s \<longrightarrow> genOsc s \<noteq> None \<and> genGain s \<noteq> None"
    "testRunning s \<longrightarrow> testOsc s \<noteq> None \<and> testGain s \<noteq> None"
    using assms by (simp_all add: consistent_def)
  from stopAllAudio_flags(1,2) [OF Some held, of fg ft] show ?thesis
    by (simp add: consistent_def)
qed

lemma stopAllAudio_consistent_off:
  assumes "consistent s" and "testRunning s"
  shows "\<not> genRunning (stopAllAudio fg ft s)" "\<not> testRunning (stopAllAudio fg ft s)"
proof -
  from assms obtain c where ctx: "audioContext s = Some c"
    by (auto simp: consistent_def)
  have held: "genRunning s \<longrightarrow> genOsc s \<noteq> None \<and> genGain s \<noteq> None"
    "testRunning s \<longrightarrow> testOsc s \<noteq> None \<and> testGain s \<noteq> None"
    using assms by (simp_all add: consistent_def)
  from stopAllAudio_flags(1,2) [OF ctx held, of fg ft]
  show "\<not> genRunning (stopAllAudio fg ft s)" "\<not> testRunning (stopAllAudio fg ft s)"
    by simp_all
qed

lemma stopGenerator_consistent:
  assumes "consistent s"
  shows "consistent (stopGenerator f s)"
  using assms
  by (auto simp: consistent_def stopGenerator_def softStopNode_release_fields
      softStopNode_host_fields softStopNode_gen_keeps_test split: option.splits)

lemma setHz_consistent:
  assumes "consistent s"
  shows "consistent (setHz v s)"
  using assms by (auto simp: consistent_def setHz_def perform_def Let_def split: option.splits)

lemma ensureContext_Throws: "ensureContext s = Throws e s' \<Longrightarrow> s' = s"
  by (simp add: ensureContext_def split: option.splits if_splits)

lemma ensureContext_Returns:
  assumes "ensureContext s = Returns s'"
  shows "audioContext s' \<noteq> None" "genRunning s' = genRunning s" "testRunning s' = testRunning s"
  using assms by (auto simp: ensureContext_def perform_def split: option.splits if_splits)

lemma startGenerator_consistent:
  assumes "consistent s"
  shows "consistent (page (startGenerator fg ft s))"
proof (cases "genRunning s")
  case True
  with assms show ?thesis
    by (simp add: startGenerator_def)
next
  case False
  define s1 where "s1 = (if testRunning s then stopAllAudio fg ft s else s)"
  have c1: "consistent s1"
    using assms by (simp add: s1_def stopAllAudio_consistent)
  have off: "\<not> testRunning s1" "\<not> genRunning s1"
    using assms False stopAllAudio_consistent_off [OF assms, of fg ft]
    by (auto simp: s1_def)
  show ?thesis
  proof (cases "ensureContext s1")
    case (Returns s2)
    with False off ensureContext_Returns [OF Returns] show ?thesis
      by (simp add: startGenerator_def s1_def [symmetric] Let_def perform_def consistent_def)
  next
    case (Throws e s')
    with False c1 ensureContext_Throws [OF Throws] show ?thesis
      by (simp add: startGenerator_def s1_def [symmetric] Let_def)
  qed
qed

lemma playTestTone_consistent:
  assumes "consistent s"
  shows "consistent (page (playTestTone f s))"
proof (cases "testRunning s")
  case True
  with assms show ?thesis
    by (simp add: playTestTone_def)
next
  case False
  define s1 where "s1 = (if genRunning s then stopGenerator f s else s)"
  have c1: "consistent s1"
    using assms by (simp add: s1_def stopGenerator_consistent)
  have off: "\<not> testRunning s1" "\<not> genRunning s1"
    using assms False
    by (auto simp: s1_def consistent_def stopGenerator_host_fields stopGenerator_def
        softStopNode_release_fields split: option.splits)
  show ?thesis
  proof (cases "ensureContext s1")
    case (Returns s2)
    with False off ensureContext_Returns [OF Returns] show ?thesis
      by (simp add: playTestTone_def s1_def [symmetric] Let_def perform_def consistent_def)
  next
    case (Throws e s')
    with False c1 ensureContext_Throws [OF Throws] show ?thesis
      by (simp add: playTestTone_def s1_def [symmetric] Let_def)
  qed
qed

lemma loaded_consistent: "consistent (loaded cap rd)"
  by (simp add: consistent_def loaded_def setHz_def Let_def)

text \<open>
  As long as no end of an oscillator is notified, the clicks, the knob and the passing of
  time keep the flags in agreement with the references, and so keep the two sources
  exclusive.
\<close>

lemma clicks_keep_consistent:
  assumes "consistent s" and "run es s = Some s'" and "\<forall>n. Ended n \<notin> set es"
  shows "consistent s'"
  using assms
proof (induction es arbitrary: s)
  case Nil
  then show ?case by simp
next
  case (Cons e es)
  from Cons.prems(2) obtain s1 where s1: "step e s = Some s1" and rest: "run es s1 = Some s'"
    by (auto split: option.splits)
  from Cons.prems(3) have quiet: "\<forall>n. e \<noteq> Ended n" "\<forall>n. Ended n \<notin> set es"
    by auto
  have "consistent s1"
  proof (cases e)
    case (ClickStart fg ft)
    with s1 startGenerator_consistent [OF Cons.prems(1), of fg ft] show ?thesis by auto
  next
    case (ClickStop f)
    with s1 stopGenerator_consistent [OF Cons.prems(1), of f] show ?thesis by auto
  next
    case (ClickTest f)
    with s1 playTestTone_consistent [OF Cons.prems(1), of f] show ?thesis by auto
  next
    case (ClickWarn fg ft)
    with s1 stopAllAudio_consistent [OF Cons.prems(1), of fg ft] show ?thesis by auto
  next
    case (Knob v)
    with s1 setHz_consistent [OF Cons.prems(1), of v] show ?thesis by auto
  next
    case (Elapse d)
    with s1 Cons.prems(1) show ?thesis by (auto simp: consistent_def split: if_splits)
  next
    case (Ended n)
    with quiet show ?thesis by simp
  qed
  from Cons.IH [OF this rest quiet(2)] show ?case .
qed

section \<open>A restart before the end of the stopped oscillator\<close>

text \<open>
  \<open>softStopNode\<close> leaves the release of the references to the \<open>onended\<close> of the
  stopped oscillator, 70 ms later, and the release function assigns to the variables
  \<open>genOsc\<close>, \<open>genGain\<close>, \<open>genLPF\<close> (or \<open>testOsc\<close>, \<open>testGain\<close>), whatever they hold by
  then. The running flag is cleared at once, so the same source can be started again
  within the 70 ms; the notification of the first oscillator then clears the references of
  the second, whose flag stays set. Every guard of the script that tests a flag together
  with its references is false from then on.
\<close>

lemmas trace_defs =
  fresh_page_def restart_generator_def restart_test_def steady_def sounding_def
  scheduled_stop_def script_defs due_def oscEnded_def

text \<open>
  Claim C1. The two running flags are not exclusive in every state the page reaches. After
  the test tone has been restarted as above, a click on Start calls \<open>stopAllAudio\<close>, whose
  guard finds no test oscillator and leaves \<open>testRunning\<close> set; the generator starts. Both
  flags are then true, and the second test oscillator (node 2) and the generator's
  oscillator (node 4) both sound.
\<close>

theorem restart_breaks_exclusion:
  "map_option genRunning (run (restart_test @ [ClickStart NoFault NoFault]) fresh_page)
     = Some True
   \<and> map_option testRunning (run (restart_test @ [ClickStart NoFault NoFault]) fresh_page)
     = Some True
   \<and> map_option (sounding 2) (run (restart_test @ [ClickStart NoFault NoFault]) fresh_page)
     = Some True
   \<and> map_option (sounding 4) (run (restart_test @ [ClickStart NoFault NoFault]) fresh_page)
     = Some True"
  by (simp add: trace_defs)

text \<open>
  Claim C2. A running generator is not always stopped by the Stop button or by a panic
  button. After the generator has been restarted as above it is flagged as running, its
  second oscillator (node 3) sounds, and \<open>genOsc\<close> is null. The Stop button then returns at
  its guard and changes nothing; a panic stop makes no host call and leaves the flag set.
  After both, no stop is scheduled for the oscillator.
\<close>

theorem stop_skips_running_generator:
  "map_option genRunning (run restart_generator fresh_page) = Some True
   \<and> map_option (sounding 3) (run restart_generator fresh_page) = Some True
   \<and> map_option genOsc (run restart_generator fresh_page) = Some None
   \<and> run (restart_generator @ [ClickStop NoFault]) fresh_page
       = run restart_generator fresh_page
   \<and> map_option genRunning (run (restart_generator @ [ClickWarn NoFault NoFault]) fresh_page)
       = Some True
   \<and> map_option calls (run (restart_generator @ [ClickWarn NoFault NoFault]) fresh_page)
       = map_option calls (run restart_generator fresh_page)
   \<and> map_option (scheduled_stop 3)
         (run (restart_generator @ [ClickStop NoFault, ClickWarn NoFault NoFault]) fresh_page)
       = Some None"
  by (simp add: trace_defs)

text \<open>
  Claim C3. A soft stop whose scheduling fails does not always leave the session idle.
  After the generator has been restarted as above, the test tone is started (the
  generator's stop is skipped at its guard) and a panic button is pressed a second later;
  the host throws at the \<open>stop\<close> of the test oscillator. The release function of the test
  tone runs at once, its references and flag and the \<open>active-audio\<close> class are cleared,
  and the generator is still flagged as running, its oscillator (node 3) sounding with no
  stop scheduled: the panic stop skipped it at its guard.
\<close>

theorem failed_stop_leaves_generator_flagged:
  "map_option testRunning (run (restart_generator @ [ClickTest NoFault]) fresh_page)
     = Some True
   \<and> map_option testOsc (run (restart_generator @ [ClickTest NoFault]) fresh_page)
     = Some (Some 6)
   \<and> map_option testOsc
         (run (restart_generator @ [ClickTest NoFault, Elapse 1, ClickWarn NoFault AtStop]) fresh_page)
       = Some None
   \<and> map_option testRunning
         (run (restart_generator @ [ClickTest NoFault, Elapse 1, ClickWarn NoFault AtStop]) fresh_page)
       = Some False
   \<and> map_option active_audio
         (run (restart_generator @ [ClickTest NoFault, Elapse 1, ClickWarn NoFault AtStop]) fresh_page)
       = Some False
   \<and> map_option genRunning
         (run (restart_generator @ [ClickTest NoFault, Elapse 1, ClickWarn NoFault AtStop]) fresh_page)
       = Some True
   \<and> map_option (sounding 3)
         (run (restart_generator @ [ClickTest NoFault, Elapse 1, ClickWarn NoFault AtStop]) fresh_page)
       = Some True
   \<and> map_option (scheduled_stop 3)
         (run (restart_generator @ [ClickTest NoFault, Elapse 1, ClickWarn NoFault AtStop]) fresh_page)
       = Some None"
  by (simp add: trace_defs)

text \<open>
  Claim C7. The start of one source is not always preceded by a stop request for the
  other. After the test tone has been restarted as above it is flagged as running and its
  second oscillator (node 2) sounds, to end by itself at 10.03 s. A click on Start starts
  the generator (oscillator 4) and requests no stop: the test tone stays flagged and its
  oscillator keeps the stop time it had. In the same way the test tone started after the
  restart of the generator leaves the generator flagged, with no stop scheduled for its
  oscillator (node 3).
\<close>

theorem start_skips_running_test_tone:
  "map_option testRunning (run restart_test fresh_page) = Some True
   \<and> map_option (sounding 2) (run restart_test fresh_page) = Some True
   \<and> map_option (scheduled_stop 2) (run restart_test fresh_page) = Some (Some 10.03)
   \<and> map_option genRunning (run (restart_test @ [ClickStart NoFault NoFault]) fresh_page)
       = Some True
   \<and> map_option genOsc (run (restart_test @ [ClickStart NoFault NoFault]) fresh_page)
       = Some (Some 4)
   \<and> map_option testRunning (run (restart_test @ [ClickStart NoFault NoFault]) fresh_page)
       = Some True
   \<and> map_option (scheduled_stop 2) (run (restart_test @ [ClickStart NoFault NoFault]) fresh_page)
       = Some (Some 10.03)
   \<and> map_option genRunning (run (restart_generator @ [ClickTest NoFault]) fresh_page)
       = Some True
   \<and> map_option (scheduled_stop 3) (run (restart_generator @ [ClickTest NoFault]) fresh_page)
       = Some None"
  by (simp add: trace_defs)

text \<open>
  Claim C9. A running generator does not always follow the knob. After the generator has
  been restarted as above it is flagged as running and its oscillator (node 3) sounds at
  the 30 Hz it was created with. \<open>setHz 45\<close> stores 45 and makes no host call: the guard
  of the retargeting finds no oscillator.
\<close>

theorem knob_skips_running_generator:
  "map_option genRunning (run restart_generator fresh_page) = Some True
   \<and> map_option (sounding 3) (run restart_generator fresh_page) = Some True
   \<and> map_option currentHz (run (restart_generator @ [Knob 45]) fresh_page) = Some 45
   \<and> map_option calls (run (restart_generator @ [Knob 45]) fresh_page)
       = map_option calls (run restart_generator fresh_page)"
  by (simp add: trace_defs)

end
